theory Spec2Isabelle
  imports Main
begin

section \<open>JavaScript values used by the dropzone module\<close>

text \<open>
  Numbers. The sizes and limits the module compares are byte counts and file counts, so a
  JavaScript number is modelled as an integer or the value \<open>Infinity\<close> (the default of
  \<open>maxSize\<close>). Fractions, \<open>NaN\<close> and \<open>-Infinity\<close> are outside the model.
\<close>

datatype number = Num int | Infinity

fun gt :: "number \<Rightarrow> number \<Rightarrow> bool" where
  "gt (Num a) (Num b) = (b < a)"
| "gt Infinity (Num b) = True"
| "gt a Infinity = False"

definition lt :: "number \<Rightarrow> number \<Rightarrow> bool" where
  "lt a b = gt b a"

definition ge :: "number \<Rightarrow> number \<Rightarrow> bool" where
  "ge a b = (gt a b \<or> a = b)"

definition digit_char :: "nat \<Rightarrow> char" where
  "digit_char d = ''0123456789'' ! d"

fun string_of_nat :: "nat \<Rightarrow> string" where
  "string_of_nat n =
     (if n < 10 then [digit_char n] else string_of_nat (n div 10) @ [digit_char (n mod 10)])"

text \<open>
  The string a template literal makes of a number: decimal digits for an integer (exact
  below \<open>10^21\<close>, where JavaScript switches to exponent notation) and the word Infinity.
\<close>

fun toString :: "number \<Rightarrow> string" where
  "toString (Num i) = (if i < 0 then ''-'' @ string_of_nat (nat (- i)) else string_of_nat (nat i))"
| "toString Infinity = ''Infinity''"

text \<open>
  Strings are lists of characters. Lower-casing and trimming are the ASCII ones: a
  character outside ASCII is left as it is.
\<close>

definition lower_char :: "char \<Rightarrow> char" where
  "lower_char c =
     (let n = (of_char c :: nat) in if 65 \<le> n \<and> n \<le> 90 then char_of (n + 32) else c)"

definition toLowerCase :: "string \<Rightarrow> string" where
  "toLowerCase s = map lower_char s"

definition is_space :: "char \<Rightarrow> bool" where
  "is_space c = ((of_char c :: nat) \<in> {9, 10, 11, 12, 13, 32})"

definition trim :: "string \<Rightarrow> string" where
  "trim s = rev (dropWhile is_space (rev (dropWhile is_space s)))"

definition endsWith :: "string \<Rightarrow> string \<Rightarrow> bool" where
  "endsWith s t = (length t \<le> length s \<and> drop (length s - length t) s = t)"

text \<open>\<open>s.split(sep)\<close> for a one-character separator; the empty string gives one empty piece.\<close>

fun split :: "char \<Rightarrow> string \<Rightarrow> string list" where
  "split sep [] = [[]]"
| "split sep (c # cs) =
     (if c = sep then [] # split sep cs
      else (case split sep cs of [] \<Rightarrow> [[c]] | x # xs \<Rightarrow> (c # x) # xs))"

fun join :: "string \<Rightarrow> string list \<Rightarrow> string" where
  "join sep [] = []"
| "join sep [x] = x"
| "join sep (x # y # ys) = x @ sep @ join sep (y # ys)"

definition is_line_terminator :: "char \<Rightarrow> bool" where
  "is_line_terminator c = ((of_char c :: nat) \<in> {10, 13})"

text \<open>
  \<open>s.replace(/\/.*$/, '')\<close>: the match starts at the first slash after which no line
  terminator follows up to the end of the string, and everything from there on is removed.
\<close>

fun replace_slash_rest :: "string \<Rightarrow> string" where
  "replace_slash_rest [] = []"
| "replace_slash_rest (c # cs) =
     (if c = CHR ''/'' \<and> \<not> list_ex is_line_terminator cs then []
      else c # replace_slash_rest cs)"

section \<open>Files, errors and rejections\<close>

text \<open>
  What the module reads of a file-like object. The acceptance functions take any object,
  so every property may be absent: a \<open>DataTransferItem\<close> seen during a drag has a
  \<open>type\<close> but neither \<open>name\<close> nor \<open>size\<close>.
\<close>

record fileWithPath =
  name :: "string option"
  type :: "string option"
  size' :: "number option"
  path :: "string option"
  webkitRelativePath :: "string option"

record fileError =
  code :: string
  message :: string

record fileRejection =
  file' :: fileWithPath
  errors :: "fileError list"

definition FILE_INVALID_TYPE :: string where
  "FILE_INVALID_TYPE = ''file-invalid-type''"

definition FILE_TOO_LARGE :: string where
  "FILE_TOO_LARGE = ''file-too-large''"

definition FILE_TOO_SMALL :: string where
  "FILE_TOO_SMALL = ''file-too-small''"

definition TOO_MANY_FILES :: string where
  "TOO_MANY_FILES = ''too-many-files''"

text \<open>The \<open>accept\<close> argument: a comma-separated string or an array of strings; \<open>None\<close> is undefined.\<close>

datatype accept_arg = AcceptString string | AcceptArray "string list"

fun truthy_accept :: "accept_arg option \<Rightarrow> bool" where
  "truthy_accept None = False"
| "truthy_accept (Some (AcceptString s)) = (s \<noteq> [])"
| "truthy_accept (Some (AcceptArray xs)) = True"

definition or_empty :: "string option \<Rightarrow> string" where
  "or_empty v = (case v of None \<Rightarrow> [] | Some s \<Rightarrow> s)"

section \<open>Acceptance policy\<close>

definition type_matches :: "string \<Rightarrow> string \<Rightarrow> string \<Rightarrow> string \<Rightarrow> bool" where
  "type_matches fileName mimeType baseMimeType type0 =
     (let validType = toLowerCase (trim type0) in
      if take 1 validType = ''.'' then endsWith (toLowerCase fileName) validType
      else if endsWith validType ''/*'' then baseMimeType = replace_slash_rest validType
      else mimeType = validType)"

definition accepts :: "fileWithPath \<Rightarrow> accept_arg option \<Rightarrow> bool" where
  "accepts f acceptedFiles =
     (if truthy_accept acceptedFiles then
        (let acceptedFilesArray =
               (case acceptedFiles of
                  Some (AcceptArray xs) \<Rightarrow> xs
                | Some (AcceptString s) \<Rightarrow> split CHR '','' s
                | None \<Rightarrow> []);
             fileName = or_empty (name f);
             mimeType = toLowerCase (or_empty (type f));
             baseMimeType = replace_slash_rest mimeType
         in list_ex (type_matches fileName mimeType baseMimeType) acceptedFilesArray)
      else True)"

fun getInvalidTypeRejectionErr :: "accept_arg option \<Rightarrow> fileError" where
  "getInvalidTypeRejectionErr None =
     \<lparr>code = FILE_INVALID_TYPE, message = ''File type must be undefined''\<rparr>"
| "getInvalidTypeRejectionErr (Some (AcceptString s)) =
     \<lparr>code = FILE_INVALID_TYPE, message = ''File type must be '' @ s\<rparr>"
| "getInvalidTypeRejectionErr (Some (AcceptArray [a])) =
     \<lparr>code = FILE_INVALID_TYPE, message = ''File type must be '' @ a\<rparr>"
| "getInvalidTypeRejectionErr (Some (AcceptArray xs)) =
     \<lparr>code = FILE_INVALID_TYPE, message = ''File type must be one of '' @ join '', '' xs\<rparr>"

definition byte_word :: "number \<Rightarrow> string" where
  "byte_word n = (if n = Num 1 then ''byte'' else ''bytes'')"

definition getTooLargeRejectionErr :: "number \<Rightarrow> fileError" where
  "getTooLargeRejectionErr maxSize =
     \<lparr>code = FILE_TOO_LARGE,
      message = ''File is larger than '' @ toString maxSize @ '' '' @ byte_word maxSize\<rparr>"

definition getTooSmallRejectionErr :: "number \<Rightarrow> fileError" where
  "getTooSmallRejectionErr minSize =
     \<lparr>code = FILE_TOO_SMALL,
      message = ''File is smaller than '' @ toString minSize @ '' '' @ byte_word minSize\<rparr>"

definition TOO_MANY_FILES_REJECTION :: fileError where
  "TOO_MANY_FILES_REJECTION = \<lparr>code = TOO_MANY_FILES, message = ''Too many files''\<rparr>"

text \<open>
  \<open>fileAccepted\<close> and \<open>fileMatchSize\<close> return a two-element array: the verdict and the
  error or \<open>null\<close>.
\<close>

definition fileAccepted :: "fileWithPath \<Rightarrow> accept_arg option \<Rightarrow> bool \<times> fileError option" where
  "fileAccepted f accept =
     (let isAcceptable = (type f = Some ''application/x-moz-file'' \<or> accepts f accept)
      in (isAcceptable, if isAcceptable then None else Some (getInvalidTypeRejectionErr accept)))"

definition fileMatchSize ::
  "fileWithPath \<Rightarrow> number option \<Rightarrow> number option \<Rightarrow> bool \<times> fileError option" where
  "fileMatchSize f minSize maxSize =
     (case size' f of
        None \<Rightarrow> (True, None)
      | Some sz \<Rightarrow>
          (case (minSize, maxSize) of
             (Some mn, Some mx) \<Rightarrow>
               if gt sz mx then (False, Some (getTooLargeRejectionErr mx))
               else if lt sz mn then (False, Some (getTooSmallRejectionErr mn))
               else (True, None)
           | (Some mn, None) \<Rightarrow>
               if lt sz mn then (False, Some (getTooSmallRejectionErr mn)) else (True, None)
           | (None, Some mx) \<Rightarrow>
               if gt sz mx then (False, Some (getTooLargeRejectionErr mx)) else (True, None)
           | (None, None) \<Rightarrow> (True, None)))"

text \<open>
  What a custom validator returns: \<open>null\<close>, one error, or an array of errors. Only
  \<open>null\<close> is falsy; an array is truthy even when it is empty.
\<close>

datatype custom_errors = NoErrors | OneError fileError | ManyErrors "fileError list"

fun truthy_errors :: "custom_errors \<Rightarrow> bool" where
  "truthy_errors NoErrors = False"
| "truthy_errors (OneError e) = True"
| "truthy_errors (ManyErrors es) = True"

definition run_validator ::
  "(fileWithPath \<Rightarrow> custom_errors) option \<Rightarrow> fileWithPath \<Rightarrow> custom_errors" where
  "run_validator validator f = (case validator of None \<Rightarrow> NoErrors | Some v \<Rightarrow> v f)"

definition too_many :: "bool \<Rightarrow> number option \<Rightarrow> nat \<Rightarrow> bool" where
  "too_many multiple maxFiles n =
     ((\<not> multiple \<and> gt (Num (int n)) (Num 1)) \<or>
      (multiple \<and> (case maxFiles of None \<Rightarrow> False
                   | Some m \<Rightarrow> ge m (Num 1) \<and> gt (Num (int n)) m)))"

definition allFilesAccepted ::
  "fileWithPath list \<Rightarrow> accept_arg option \<Rightarrow> number option \<Rightarrow> number option \<Rightarrow> bool \<Rightarrow>
   number option \<Rightarrow> (fileWithPath \<Rightarrow> custom_errors) option \<Rightarrow> bool" where
  "allFilesAccepted files accept minSize maxSize multiple maxFiles validator =
     (if too_many multiple maxFiles (length files) then False
      else list_all (\<lambda>f.
             let accepted = fst (fileAccepted f accept);
                 sizeMatch = fst (fileMatchSize f minSize maxSize);
                 customErrors = run_validator validator f
             in accepted \<and> sizeMatch \<and> \<not> truthy_errors customErrors) files)"

section \<open>Interaction state and its reducer\<close>

record dropzoneState =
  isFocused :: bool
  isFileDialogActive :: bool
  isDragActive :: bool
  isDragAccept :: bool
  isDragReject :: bool
  acceptedFiles :: "fileWithPath list"
  fileRejections :: "fileRejection list"

definition initialState :: dropzoneState where
  "initialState =
     \<lparr>isFocused = False, isFileDialogActive = False, isDragActive = False,
      isDragAccept = False, isDragReject = False, acceptedFiles = [], fileRejections = []\<rparr>"

text \<open>
  An action is an object with a \<open>type\<close> string and the fields its case reads.
  \<open>SetDraggedFiles\<close> carries \<open>isDragActive\<close>, \<open>isDragAccept\<close>, \<open>isDragReject\<close> in this
  order; \<open>OtherAction\<close> is any type string the switch does not list.
\<close>

datatype action =
    Focus
  | Blur
  | OpenDialog
  | CloseDialog
  | SetDraggedFiles bool bool bool
  | SetFiles "fileWithPath list" "fileRejection list"
  | Reset
  | OtherAction string

fun reducer :: "dropzoneState \<Rightarrow> action \<Rightarrow> dropzoneState" where
  "reducer st Focus = st\<lparr>isFocused := True\<rparr>"
| "reducer st Blur = st\<lparr>isFocused := False\<rparr>"
| "reducer st OpenDialog = initialState\<lparr>isFileDialogActive := True\<rparr>"
| "reducer st CloseDialog = st\<lparr>isFileDialogActive := False\<rparr>"
| "reducer st (SetDraggedFiles active accept reject) =
     st\<lparr>isDragActive := active, isDragAccept := accept, isDragReject := reject\<rparr>"
| "reducer st (SetFiles accepted rejections) =
     st\<lparr>acceptedFiles := accepted, fileRejections := rejections\<rparr>"
| "reducer st Reset = initialState"
| "reducer st (OtherAction t) = st"

section \<open>The hook's options and callbacks\<close>

text \<open>
  The options the handlers below close over. An observer callback is modelled by whether
  it is supplied; calling it is recorded in the list of calls a handler returns. The event
  argument the observers are called with is not recorded. The handlers also close over
  \<open>acceptAttr\<close>, the accept string the hook derives from its \<open>accept\<close> option; it is an
  argument here, and the handlers are modelled for any value of it.
\<close>

record props =
  minSize :: "number option"
  maxSize :: "number option"
  multiple :: bool
  maxFiles :: "number option"
  validator :: "(fileWithPath \<Rightarrow> custom_errors) option"
  noDragEventsBubbling :: bool
  onDrop :: bool
  onDropAccepted :: bool
  onDropRejected :: bool
  onDragEnter :: bool
  onError :: bool

datatype call =
    OnDrop "fileWithPath list" "fileRejection list"
  | OnDropRejected "fileRejection list"
  | OnDropAccepted "fileWithPath list"
  | OnDragEnter
  | OnError
  | ConsoleError

definition onErrCb :: "props \<Rightarrow> call list" where
  "onErrCb p = (if onError p then [OnError] else [ConsoleError])"

subsection \<open>setFiles\<close>

definition custom_error_list :: "custom_errors \<Rightarrow> fileError option list" where
  "custom_error_list c =
     (case c of NoErrors \<Rightarrow> [] | OneError e \<Rightarrow> [Some e] | ManyErrors es \<Rightarrow> map Some es)"

text \<open>
  One round of the \<open>forEach\<close> over the batch: the file is pushed to \<open>acceptedFiles\<close> or a
  rejection with its errors (the \<open>null\<close>s filtered out) is pushed to \<open>fileRejections\<close>.
\<close>

definition setFiles_each ::
  "props \<Rightarrow> accept_arg option \<Rightarrow> fileWithPath list \<times> fileRejection list \<Rightarrow> fileWithPath \<Rightarrow>
   fileWithPath list \<times> fileRejection list" where
  "setFiles_each p acceptAttr acc f =
     (let (accepted, acceptError) = fileAccepted f acceptAttr;
          (sizeMatch, sizeError) = fileMatchSize f (minSize p) (maxSize p);
          customErrors = run_validator (validator p) f
      in if accepted \<and> sizeMatch \<and> \<not> truthy_errors customErrors
         then (fst acc @ [f], snd acc)
         else (let errors0 = [acceptError, sizeError] @ custom_error_list customErrors
               in (fst acc, snd acc @ [\<lparr>file' = f, errors = List.map_filter id errors0\<rparr>])))"

definition setFiles_partition ::
  "props \<Rightarrow> accept_arg option \<Rightarrow> fileWithPath list \<Rightarrow> fileWithPath list \<times> fileRejection list" where
  "setFiles_partition p acceptAttr files =
     (let (accepted0, rejections0) = foldl (setFiles_each p acceptAttr) ([], []) files
      in if too_many (multiple p) (maxFiles p) (length accepted0)
         then ([], rejections0 @
                   map (\<lambda>f. \<lparr>file' = f, errors = [TOO_MANY_FILES_REJECTION]\<rparr>) accepted0)
         else (accepted0, rejections0))"

definition setFiles ::
  "props \<Rightarrow> accept_arg option \<Rightarrow> fileWithPath list \<Rightarrow> dropzoneState \<Rightarrow>
   dropzoneState \<times> call list" where
  "setFiles p acceptAttr files st =
     (let (accepted, rejections) = setFiles_partition p acceptAttr files
      in (reducer st (SetFiles accepted rejections),
          (if onDrop p then [OnDrop accepted rejections] else []) @
          (if rejections \<noteq> [] \<and> onDropRejected p then [OnDropRejected rejections] else []) @
          (if accepted \<noteq> [] \<and> onDropAccepted p then [OnDropAccepted accepted] else [])))"

text \<open>
  The validator is a callback of the consumer: \<open>setFiles\<close> calls it once for every file
  of the batch, in order, and nothing keeps it from answering differently from one call
  to the next. The definitions above take it as a function of the file. Below it is a
  state-passing function, the state standing for whatever the callback remembers between
  its calls. The callback is an argument of its own here and the \<open>validator\<close> field of
  the options is not read; \<open>stateless\<close> turns a function of the file into a callback.
\<close>

type_synonym 's validator_callback = "'s \<Rightarrow> fileWithPath \<Rightarrow> custom_errors \<times> 's"

definition call_validator ::
  "'s validator_callback option \<Rightarrow> 's \<Rightarrow> fileWithPath \<Rightarrow> custom_errors \<times> 's" where
  "call_validator cb s f = (case cb of None \<Rightarrow> (NoErrors, s) | Some v \<Rightarrow> v s f)"

definition stateless :: "(fileWithPath \<Rightarrow> custom_errors) \<Rightarrow> 's validator_callback" where
  "stateless v s f = (v f, s)"

definition setFiles_each_stateful ::
  "props \<Rightarrow> accept_arg option \<Rightarrow> 's validator_callback option \<Rightarrow>
   (fileWithPath list \<times> fileRejection list) \<times> 's \<Rightarrow> fileWithPath \<Rightarrow>
   (fileWithPath list \<times> fileRejection list) \<times> 's" where
  "setFiles_each_stateful p acceptAttr cb acc f =
     (let (accepted, acceptError) = fileAccepted f acceptAttr;
          (sizeMatch, sizeError) = fileMatchSize f (minSize p) (maxSize p);
          (customErrors, s') = call_validator cb (snd acc) f
      in if accepted \<and> sizeMatch \<and> \<not> truthy_errors customErrors
         then ((fst (fst acc) @ [f], snd (fst acc)), s')
         else (let errors0 = [acceptError, sizeError] @ custom_error_list customErrors
               in ((fst (fst acc),
                    snd (fst acc) @ [\<lparr>file' = f, errors = List.map_filter id errors0\<rparr>]), s')))"

definition setFiles_partition_stateful ::
  "props \<Rightarrow> accept_arg option \<Rightarrow> 's validator_callback option \<Rightarrow> 's \<Rightarrow> fileWithPath list \<Rightarrow>
   (fileWithPath list \<times> fileRejection list) \<times> 's" where
  "setFiles_partition_stateful p acceptAttr cb s files =
     (let ((accepted0, rejections0), s') =
            foldl (setFiles_each_stateful p acceptAttr cb) (([], []), s) files
      in if too_many (multiple p) (maxFiles p) (length accepted0)
         then (([], rejections0 @
                    map (\<lambda>f. \<lparr>file' = f, errors = [TOO_MANY_FILES_REJECTION]\<rparr>) accepted0), s')
         else ((accepted0, rejections0), s'))"

definition setFiles_stateful ::
  "props \<Rightarrow> accept_arg option \<Rightarrow> 's validator_callback option \<Rightarrow> 's \<Rightarrow> fileWithPath list \<Rightarrow>
   dropzoneState \<Rightarrow> (dropzoneState \<times> call list) \<times> 's" where
  "setFiles_stateful p acceptAttr cb s files st =
     (let ((accepted, rejections), s') = setFiles_partition_stateful p acceptAttr cb s files
      in ((reducer st (SetFiles accepted rejections),
           (if onDrop p then [OnDrop accepted rejections] else []) @
           (if rejections \<noteq> [] \<and> onDropRejected p then [OnDropRejected rejections] else []) @
           (if accepted \<noteq> [] \<and> onDropAccepted p then [OnDropAccepted accepted] else [])), s'))"

text \<open>
  The verdict of the three per-file checks, and the rejection a failing file gets, named
  for the statements below.
\<close>

definition file_passes :: "props \<Rightarrow> accept_arg option \<Rightarrow> fileWithPath \<Rightarrow> bool" where
  "file_passes p acceptAttr f =
     (fst (fileAccepted f acceptAttr) \<and> fst (fileMatchSize f (minSize p) (maxSize p)) \<and>
      \<not> truthy_errors (run_validator (validator p) f))"

definition file_rejection :: "props \<Rightarrow> accept_arg option \<Rightarrow> fileWithPath \<Rightarrow> fileRejection" where
  "file_rejection p acceptAttr f =
     \<lparr>file' = f,
      errors = List.map_filter id
        ([snd (fileAccepted f acceptAttr), snd (fileMatchSize f (minSize p) (maxSize p))] @
         custom_error_list (run_validator (validator p) f))\<rparr>"

definition too_many_rejection :: "fileWithPath \<Rightarrow> fileRejection" where
  "too_many_rejection f = \<lparr>file' = f, errors = [TOO_MANY_FILES_REJECTION]\<rparr>"

section \<open>Events\<close>

text \<open>A list-valued property of a browser object: absent, \<open>null\<close>, or a list.\<close>

datatype 'a js_list = Undefined | Null | Items "'a list"

text \<open>
  A file-system entry of a dropped directory tree. A file entry has its full path and the
  outcome of \<open>entry.file\<close> (\<open>None\<close> when the error callback is called). A directory entry
  has the batches its reader delivers, in order, and whether the read after the last
  batch succeeds with the empty batch (\<open>True\<close>) or calls the error callback (\<open>False\<close>).
\<close>

datatype entry =
    FileEntry string "fileWithPath option"
  | DirEntry "entry list list" bool

text \<open>
  A \<open>DataTransferItem\<close>: its \<open>kind\<close> and \<open>type\<close>, what \<open>webkitGetAsEntry\<close> returns
  (\<open>None\<close> when the item has no such function, \<open>Some None\<close> for \<open>null\<close>) and what
  \<open>getAsFile\<close> returns (\<open>None\<close> for \<open>null\<close>).
\<close>

datatype dataTransferItem =
  DataTransferItem (kind: string) (itemType: string)
    (webkitGetAsEntry: "entry option option") (getAsFile: "fileWithPath option")

datatype dataTransfer =
  DataTransfer (types: "string list") (items: "dataTransferItem js_list")
    (dtFiles: "fileWithPath js_list")

datatype eventTarget = EventTarget (node: nat) (targetFiles: "fileWithPath js_list")

text \<open>
  An event as the handlers read it. \<open>isPropagationStopped'\<close> is the result of the event's
  \<open>isPropagationStopped\<close> function when it has one, \<open>cancelBubble\<close> the property of that
  name when it is defined; both are read when the extraction has resolved.
\<close>

record dropEvent =
  evType :: string
  dataTransfer :: "dataTransfer option"
  target :: "eventTarget option"
  isPropagationStopped' :: "bool option"
  cancelBubble :: "bool option"

definition isPropagationStopped :: "dropEvent \<Rightarrow> bool" where
  "isPropagationStopped event =
     (case isPropagationStopped' event of
        Some b \<Rightarrow> b
      | None \<Rightarrow> (case cancelBubble event of Some b \<Rightarrow> b | None \<Rightarrow> False))"

definition isEvtWithFiles :: "dropEvent \<Rightarrow> bool" where
  "isEvtWithFiles event =
     (case dataTransfer event of
        None \<Rightarrow>
          (case target event of
             None \<Rightarrow> False
           | Some t \<Rightarrow> (case targetFiles t of Items fs \<Rightarrow> True | Undefined \<Rightarrow> False | Null \<Rightarrow> False))
      | Some dt \<Rightarrow>
          list_ex (\<lambda>t. t = ''Files'' \<or> t = ''application/x-moz-file'') (types dt))"

section \<open>The dragenter handler\<close>

text \<open>
  The surface's mutable part: the reducer state and the list of hovered targets
  (\<open>dragTargetsRef\<close>).
\<close>

record surface =
  state :: dropzoneState
  dragTargets :: "eventTarget option list"

text \<open>
  \<open>onDragEnterCb\<close> with the outcome of \<open>getFilesFromEvent(event)\<close> as an argument:
  \<open>Some files\<close> when the promise resolves with these file-like objects, \<open>None\<close> when it
  rejects. The handler first appends the target to the hovered targets; the rest is the
  continuation that runs when the extraction has resolved.
\<close>

definition onDragEnterCb ::
  "props \<Rightarrow> accept_arg option \<Rightarrow> dropEvent \<Rightarrow> fileWithPath list option \<Rightarrow> surface \<Rightarrow>
   surface \<times> call list" where
  "onDragEnterCb p acceptAttr event resolved s =
     (let s1 = s\<lparr>dragTargets := dragTargets s @ [target event]\<rparr> in
      if isEvtWithFiles event then
        (case resolved of
           None \<Rightarrow> (s1, onErrCb p)
         | Some files \<Rightarrow>
             if isPropagationStopped event \<and> \<not> noDragEventsBubbling p then (s1, [])
             else
               (let fileCount = length files;
                    dragAccept = (fileCount > 0 \<and>
                       allFilesAccepted files acceptAttr (minSize p) (maxSize p) (multiple p)
                         (maxFiles p) (validator p));
                    dragReject = (fileCount > 0 \<and> \<not> dragAccept)
                in (s1\<lparr>state := reducer (state s1) (SetDraggedFiles True dragAccept dragReject)\<rparr>,
                    if onDragEnter p then [OnDragEnter] else [])))
      else (s1, []))"

section \<open>Event-to-file extraction\<close>

text \<open>The extension to MIME type table, in the order of the source.\<close>

definition COMMON_MIME_TYPES :: "(string \<times> string) list" where
  "COMMON_MIME_TYPES =
     [
      (''aac'', ''audio/aac''),
      (''abw'', ''application/x-abiword''),
      (''arc'', ''application/x-freearc''),
      (''avif'', ''image/avif''),
      (''avi'', ''video/x-msvideo''),
      (''azw'', ''application/vnd.amazon.ebook''),
      (''bin'', ''application/octet-stream''),
      (''bmp'', ''image/bmp''),
      (''bz'', ''application/x-bzip''),
      (''bz2'', ''application/x-bzip2''),
      (''cda'', ''application/x-cdf''),
      (''csh'', ''application/x-csh''),
      (''css'', ''text/css''),
      (''csv'', ''text/csv''),
      (''doc'', ''application/msword''),
      (''docx'', ''application/vnd.openxmlformats-officedocument.wordprocessingml.document''),
      (''eot'', ''application/vnd.ms-fontobject''),
      (''epub'', ''application/epub+zip''),
      (''gz'', ''application/gzip''),
      (''gif'', ''image/gif''),
      (''heic'', ''image/heic''),
      (''heif'', ''image/heif''),
      (''htm'', ''text/html''),
      (''html'', ''text/html''),
      (''ico'', ''image/vnd.microsoft.icon''),
      (''ics'', ''text/calendar''),
      (''jar'', ''application/java-archive''),
      (''jpeg'', ''image/jpeg''),
      (''jpg'', ''image/jpeg''),
      (''js'', ''text/javascript''),
      (''json'', ''application/json''),
      (''jsonld'', ''application/ld+json''),
      (''mid'', ''audio/midi''),
      (''midi'', ''audio/midi''),
      (''mjs'', ''text/javascript''),
      (''mp3'', ''audio/mpeg''),
      (''mp4'', ''video/mp4''),
      (''mpeg'', ''video/mpeg''),
      (''mpkg'', ''application/vnd.apple.installer+xml''),
      (''odp'', ''application/vnd.oasis.opendocument.presentation''),
      (''ods'', ''application/vnd.oasis.opendocument.spreadsheet''),
      (''odt'', ''application/vnd.oasis.opendocument.text''),
      (''oga'', ''audio/ogg''),
      (''ogv'', ''video/ogg''),
      (''ogx'', ''application/ogg''),
      (''opus'', ''audio/opus''),
      (''otf'', ''font/otf''),
      (''png'', ''image/png''),
      (''pdf'', ''application/pdf''),
      (''php'', ''application/x-httpd-php''),
      (''ppt'', ''application/vnd.ms-powerpoint''),
      (''pptx'', ''application/vnd.openxmlformats-officedocument.presentationml.presentation''),
      (''rar'', ''application/vnd.rar''),
      (''rtf'', ''application/rtf''),
      (''sh'', ''application/x-sh''),
      (''svg'', ''image/svg+xml''),
      (''swf'', ''application/x-shockwave-flash''),
      (''tar'', ''application/x-tar''),
      (''tif'', ''image/tiff''),
      (''tiff'', ''image/tiff''),
      (''ts'', ''video/mp2t''),
      (''ttf'', ''font/ttf''),
      (''txt'', ''text/plain''),
      (''vsd'', ''application/vnd.visio''),
      (''wav'', ''audio/wav''),
      (''weba'', ''audio/webm''),
      (''webm'', ''video/webm''),
      (''webp'', ''image/webp''),
      (''woff'', ''font/woff''),
      (''woff2'', ''font/woff2''),
      (''xhtml'', ''application/xhtml+xml''),
      (''xls'', ''application/vnd.ms-excel''),
      (''xlsx'', ''application/vnd.openxmlformats-officedocument.spreadsheetml.sheet''),
      (''xml'', ''application/xml''),
      (''xul'', ''application/vnd.mozilla.xul+xml''),
      (''zip'', ''application/zip''),
      (''7z'', ''application/x-7z-compressed''),
      (''mkv'', ''video/x-matroska''),
      (''mov'', ''video/quicktime''),
      (''msg'', ''application/vnd.ms-outlook'')]"

text \<open>
  \<open>withMimeType\<close>: a file with an extension and no type gets the type the table has for
  the lower-cased text after the last dot of its name, if any.
\<close>

definition withMimeType :: "fileWithPath \<Rightarrow> fileWithPath" where
  "withMimeType f =
     (let hasExtension = (case name f of None \<Rightarrow> False | Some n \<Rightarrow> n \<noteq> [] \<and> CHR ''.'' \<in> set n)
      in if hasExtension \<and> or_empty (type f) = [] then
           (let ext = toLowerCase (last (split CHR ''.'' (or_empty (name f))))
            in case map_of COMMON_MIME_TYPES ext of
                 Some t \<Rightarrow> f\<lparr>type := Some t\<rparr>
               | None \<Rightarrow> f)
         else f)"

text \<open>
  \<open>toFileWithPath\<close>: the path is set only when the file has none yet; it is the path
  argument when that is a string, else a non-empty \<open>webkitRelativePath\<close>, else the name.
\<close>

definition toFileWithPath :: "fileWithPath \<Rightarrow> string option \<Rightarrow> fileWithPath" where
  "toFileWithPath f0 path0 =
     (let f = withMimeType f0 in
      case path f of
        Some p \<Rightarrow> f
      | None \<Rightarrow>
          f\<lparr>path :=
            (case path0 of
               Some p \<Rightarrow> Some p
             | None \<Rightarrow>
                 (case webkitRelativePath f0 of
                    Some w \<Rightarrow> if w \<noteq> [] then Some w else name f0
                  | None \<Rightarrow> name f0))\<rparr>)"

definition FILES_TO_IGNORE :: "string list" where
  "FILES_TO_IGNORE = [''.DS_Store'', ''Thumbs.db'']"

definition noIgnoredFiles :: "fileWithPath list \<Rightarrow> fileWithPath list" where
  "noIgnoredFiles files =
     filter (\<lambda>f. case name f of None \<Rightarrow> True | Some n \<Rightarrow> n \<notin> set FILES_TO_IGNORE) files"

text \<open>
  \<open>fromList\<close> copies a list; it returns the empty list for \<open>null\<close> and throws on an absent
  list, whose \<open>length\<close> it reads (\<open>None\<close>).
\<close>

fun fromList :: "'a js_list \<Rightarrow> 'a list option" where
  "fromList Null = Some []"
| "fromList Undefined = None"
| "fromList (Items xs) = Some xs"

text \<open>
  A promise is modelled by its outcome: \<open>Some v\<close> when it resolves with \<open>v\<close>, \<open>None\<close>
  when it rejects. Which reason it rejects with depends on the order in which the browser
  completes the reads and is not modelled. \<open>Promise.all\<close> resolves when all do.
\<close>

fun promise_all :: "'a option list \<Rightarrow> 'a list option" where
  "promise_all [] = Some []"
| "promise_all (None # ps) = None"
| "promise_all (Some v # ps) = (case promise_all ps of None \<Rightarrow> None | Some vs \<Rightarrow> Some (v # vs))"

text \<open>The values a directory read resolves with: files and arrays, nested to any depth.\<close>

datatype fileValue = FileV fileWithPath | ArrayV "fileValue list"

fun flatten :: "fileValue list \<Rightarrow> fileWithPath list" where
  "flatten [] = []"
| "flatten (FileV f # rest) = f # flatten rest"
| "flatten (ArrayV files # rest) = flatten files @ flatten rest"

definition fromFileEntry :: "string \<Rightarrow> fileWithPath option \<Rightarrow> fileWithPath option" where
  "fromFileEntry fullPath fileResult =
     (case fileResult of None \<Rightarrow> None | Some f \<Rightarrow> Some (toFileWithPath f (Some fullPath)))"

text \<open>
  \<open>fromEntry\<close> and the \<open>readEntries\<close> loop of \<open>fromDirEntry\<close>. \<open>readEntries\<close> takes the
  batches the reader has still to deliver, the outcome of the read after them, and the
  promises pushed to \<open>entries\<close> so far.
\<close>

function fromEntry :: "entry \<Rightarrow> fileValue option"
  and readEntries :: "entry list list \<Rightarrow> bool \<Rightarrow> fileValue option list \<Rightarrow> fileValue option" where
  "fromEntry (FileEntry fullPath fileResult) = map_option FileV (fromFileEntry fullPath fileResult)"
| "fromEntry (DirEntry batches ok) = readEntries batches ok []"
| "readEntries [] ok entries = (if ok then map_option ArrayV (promise_all entries) else None)"
| "readEntries (batch # rest) ok entries =
     (if batch = [] then map_option ArrayV (promise_all entries)
      else readEntries rest ok
             (entries @ [map_option ArrayV (promise_all (map fromEntry batch))]))"
  by pat_completeness auto
termination
proof (relation "measure (\<lambda>x. case x of
        Inl e \<Rightarrow> size e
      | Inr (bs, ok, es) \<Rightarrow> size_list (size_list size) bs)", goal_cases)
  case (3 batch rest ok entries x)
  have "size x \<le> size_list size batch"
    using 3(2) by (rule size_list_estimation') simp
  then show ?case by simp
qed auto

definition fromDirEntry :: "entry \<Rightarrow> fileValue option" where
  "fromDirEntry e = (case e of DirEntry batches ok \<Rightarrow> readEntries batches ok [] | FileEntry p r \<Rightarrow> None)"

definition fromDataTransferItem :: "dataTransferItem \<Rightarrow> fileWithPath option" where
  "fromDataTransferItem item =
     (case getAsFile item of None \<Rightarrow> None | Some f \<Rightarrow> Some (toFileWithPath f None))"

definition toFilePromises :: "dataTransferItem \<Rightarrow> fileValue option" where
  "toFilePromises item =
     (case webkitGetAsEntry item of
        None \<Rightarrow> map_option FileV (fromDataTransferItem item)
      | Some None \<Rightarrow> map_option FileV (fromDataTransferItem item)
      | Some (Some (FileEntry p r)) \<Rightarrow> map_option FileV (fromDataTransferItem item)
      | Some (Some (DirEntry batches ok)) \<Rightarrow> fromDirEntry (DirEntry batches ok))"

text \<open>
  What an extraction resolves with: files, or on \<open>dragenter\<close> and \<open>dragover\<close> the
  transfer's items themselves.
\<close>

datatype extracted = ExtractedFile fileWithPath | ExtractedItem dataTransferItem

definition getDataTransferFiles :: "dataTransfer \<Rightarrow> string \<Rightarrow> extracted list option" where
  "getDataTransferFiles dt evtType =
     (case items dt of
        Items its \<Rightarrow>
          (let fileItems = filter (\<lambda>item. kind item = ''file'') its in
           if evtType \<noteq> ''drop'' then Some (map ExtractedItem fileItems)
           else (case promise_all (map toFilePromises fileItems) of
                   None \<Rightarrow> None
                 | Some files \<Rightarrow> Some (map ExtractedFile (noIgnoredFiles (flatten files)))))
      | _ \<Rightarrow>
          (case fromList (dtFiles dt) of
             None \<Rightarrow> None
           | Some fs \<Rightarrow>
               Some (map ExtractedFile (noIgnoredFiles (map (\<lambda>f. toFileWithPath f None) fs)))))"

definition getInputFiles :: "dropEvent \<Rightarrow> fileWithPath list option" where
  "getInputFiles evt =
     (case target evt of
        None \<Rightarrow> None
      | Some t \<Rightarrow>
          (case fromList (targetFiles t) of
             None \<Rightarrow> None
           | Some fs \<Rightarrow> Some (map (\<lambda>f. toFileWithPath f None) fs)))"

text \<open>
  An element of an array passed to \<open>fromEvent\<close>: a handle with the outcome of its
  \<open>getFile()\<close>, or an object without a \<open>getFile\<close> function.
\<close>

datatype arrayItem = Handle "fileWithPath option" | NotHandle

fun has_getFile :: "arrayItem \<Rightarrow> bool" where
  "has_getFile (Handle r) = True"
| "has_getFile NotHandle = False"

fun getFile :: "arrayItem \<Rightarrow> fileWithPath option" where
  "getFile (Handle r) = r"
| "getFile NotHandle = None"

definition getFsHandleFiles :: "arrayItem list \<Rightarrow> fileWithPath list option" where
  "getFsHandleFiles handles =
     (case promise_all (map getFile handles) of
        None \<Rightarrow> None
      | Some files \<Rightarrow> Some (map (\<lambda>f. toFileWithPath f None) files))"

text \<open>The argument of \<open>fromEvent\<close>: an event object, an array, or any other value.\<close>

datatype evtArg = EventArg dropEvent | ArrayArg "arrayItem list" | OtherArg

fun fromEvent :: "evtArg \<Rightarrow> extracted list option" where
  "fromEvent (EventArg evt) =
     (case dataTransfer evt of
        Some dt \<Rightarrow> getDataTransferFiles dt (evType evt)
      | None \<Rightarrow>
          (case target evt of
             Some t \<Rightarrow> map_option (map ExtractedFile) (getInputFiles evt)
           | None \<Rightarrow> Some []))"
| "fromEvent (ArrayArg handles) =
     (if list_all has_getFile handles
      then map_option (map ExtractedFile) (getFsHandleFiles handles)
      else Some [])"
| "fromEvent OtherArg = Some []"

section \<open>Reference notions for the statements\<close>

text \<open>
  The file entries of a directory tree with their full paths, in the order of the
  enumeration: batch after batch up to the first empty one, each entry in its batch's
  order, a sub-directory replaced by its own listing.
\<close>

function entry_listing :: "entry \<Rightarrow> (string \<times> fileWithPath) list"
  and batches_listing :: "entry list list \<Rightarrow> (string \<times> fileWithPath) list" where
  "entry_listing (FileEntry fullPath fileResult) =
     (case fileResult of None \<Rightarrow> [] | Some f \<Rightarrow> [(fullPath, f)])"
| "entry_listing (DirEntry batches ok) = batches_listing batches"
| "batches_listing [] = []"
| "batches_listing (batch # rest) =
     (if batch = [] then [] else concat (map entry_listing batch) @ batches_listing rest)"
  by pat_completeness auto
termination
proof (relation "measure (\<lambda>x. case x of
        Inl e \<Rightarrow> size e
      | Inr bs \<Rightarrow> size_list (size_list size) bs)", goal_cases)
  case (3 batch rest x)
  have "size x \<le> size_list size batch"
    using 3(2) by (rule size_list_estimation') simp
  then show ?case by simp
qed auto

text \<open>
  Whether every read of a directory tree succeeds: every file entry delivers its file and
  every reader ends with the empty batch rather than an error. Nothing is read after the
  first empty batch.
\<close>

function entry_reads_ok :: "entry \<Rightarrow> bool"
  and batches_read_ok :: "entry list list \<Rightarrow> bool \<Rightarrow> bool" where
  "entry_reads_ok (FileEntry fullPath fileResult) = (fileResult \<noteq> None)"
| "entry_reads_ok (DirEntry batches ok) = batches_read_ok batches ok"
| "batches_read_ok [] ok = ok"
| "batches_read_ok (batch # rest) ok =
     (if batch = [] then True else list_all entry_reads_ok batch \<and> batches_read_ok rest ok)"
  by pat_completeness auto
termination
proof (relation "measure (\<lambda>x. case x of
        Inl e \<Rightarrow> size e
      | Inr (bs, ok) \<Rightarrow> size_list (size_list size) bs)", goal_cases)
  case (3 batch rest ok x)
  have "size x \<le> size_list size batch"
    using 3(2) by (rule size_list_estimation') simp
  then show ?case by simp
qed auto

definition with_full_path :: "string \<times> fileWithPath \<Rightarrow> fileWithPath" where
  "with_full_path pf = toFileWithPath (snd pf) (Some (fst pf))"

text \<open>A validator that rejects every file with one error of its own.\<close>

definition reject_all :: "fileWithPath \<Rightarrow> custom_errors" where
  "reject_all f = OneError \<lparr>code = ''custom'', message = ''rejected''\<rparr>"

definition extracted_name :: "extracted \<Rightarrow> string option" where
  "extracted_name x = (case x of ExtractedFile f \<Rightarrow> name f | ExtractedItem item \<Rightarrow> None)"

section \<open>Example inputs\<close>

text \<open>The defaults of the options modelled here, with no observer supplied.\<close>

definition defaultProps :: props where
  "defaultProps =
     \<lparr>minSize = Some (Num 0), maxSize = Some Infinity, multiple = True,
      maxFiles = Some (Num 0), validator = None, noDragEventsBubbling = False,
      onDrop = False, onDropAccepted = False, onDropRejected = False,
      onDragEnter = False, onError = False\<rparr>"

text \<open>A text file of ten bytes with the given name, as a browser reports it.\<close>

definition text_file :: "string \<Rightarrow> fileWithPath" where
  "text_file n =
     \<lparr>name = Some n, type = Some ''text/plain'', size' = Some (Num 10), path = None,
      webkitRelativePath = Some []\<rparr>"

text \<open>What the handlers read of a dragged item of type \<open>image/png\<close>.\<close>

definition png_item :: fileWithPath where
  "png_item =
     \<lparr>name = None, type = Some ''image/png'', size' = None, path = None,
      webkitRelativePath = None\<rparr>"

text \<open>A \<open>dragenter\<close> event that carries files and whose propagation is not stopped.\<close>

definition dragenter_event :: dropEvent where
  "dragenter_event =
     \<lparr>evType = ''dragenter'',
      dataTransfer = Some (DataTransfer [''Files''] (Items []) (Items [])),
      target = Some (EventTarget 0 Undefined),
      isPropagationStopped' = Some False, cancelBubble = None\<rparr>"

definition idle_surface :: surface where
  "idle_surface = \<lparr>state = initialState, dragTargets = []\<rparr>"

text \<open>
  A dropped directory \<open>photos\<close> with the file \<open>a.txt\<close> in it and the file \<open>b.txt\<close> two
  directories further down, each directory read in one batch.
\<close>

definition photos_dir :: entry where
  "photos_dir =
     DirEntry
       [[FileEntry ''/photos/a.txt'' (Some (text_file ''a.txt'')),
         DirEntry [[DirEntry [[FileEntry ''/photos/x/y/b.txt'' (Some (text_file ''b.txt''))]] True]]
           True]]
       True"

text \<open>A file that already has a path, as on Electron, in a directory of one file.\<close>

definition electron_file :: fileWithPath where
  "electron_file = (text_file ''a.txt'')\<lparr>path := Some ''/home/u/docs/a.txt''\<rparr>"

definition docs_dir :: entry where
  "docs_dir = DirEntry [[FileEntry ''/docs/a.txt'' (Some electron_file)]] True"

text \<open>A change event of the hidden input with the given selected files.\<close>

definition change_event :: "fileWithPath list \<Rightarrow> dropEvent" where
  "change_event fs =
     \<lparr>evType = ''change'', dataTransfer = None, target = Some (EventTarget 1 (Items fs)),
      isPropagationStopped' = Some False, cancelBubble = None\<rparr>"

text \<open>
  A validator that remembers whether it has been called: it passes the file of its first
  call and rejects the file of every later one.
\<close>

definition second_call_rejects :: "bool validator_callback" where
  "second_call_rejects called f =
     (if called then OneError \<lparr>code = ''custom'', message = ''rejected''\<rparr> else NoErrors, True)"

section \<open>Size check\<close>

text \<open>
  C4. For a file whose size is known, when a minimum and a maximum are both set and the
  size violates both (it is above the maximum and below the minimum), \<open>fileMatchSize\<close>
  reports the too-large error and not the too-small one. For a file whose size is unknown
  it returns \<open>true\<close> and no error, whatever the bounds.
\<close>

theorem fileMatchSize_max_precedence:
  "(size' f = Some sz \<and> gt sz mx \<and> lt sz mn \<longrightarrow>
      fileMatchSize f (Some mn) (Some mx) = (False, Some (getTooLargeRejectionErr mx)) \<and>
      code (getTooLargeRejectionErr mx) = FILE_TOO_LARGE \<and>
      code (getTooLargeRejectionErr mx) \<noteq> FILE_TOO_SMALL) \<and>
   (size' f = None \<longrightarrow> fileMatchSize f minSize0 maxSize0 = (True, None))"
  by (simp add: fileMatchSize_def getTooLargeRejectionErr_def FILE_TOO_LARGE_def FILE_TOO_SMALL_def)

text \<open>A file of 30 bytes against a minimum of 50 and a maximum of 10, and an item without a size.\<close>

theorem fileMatchSize_max_precedence_witness:
  "size' ((text_file ''a.txt'')\<lparr>size' := Some (Num 30)\<rparr>) = Some (Num 30) \<and>
   gt (Num 30) (Num 10) \<and> lt (Num 30) (Num 50) \<and>
   fileMatchSize ((text_file ''a.txt'')\<lparr>size' := Some (Num 30)\<rparr>) (Some (Num 50)) (Some (Num 10))
     = (False, Some \<lparr>code = ''file-too-large'', message = ''File is larger than 10 bytes''\<rparr>) \<and>
   size' png_item = None \<and>
   fileMatchSize png_item (Some (Num 50)) (Some (Num 10)) = (True, None)"
proof -
  let ?f = "(text_file ''a.txt'')\<lparr>size' := Some (Num 30)\<rparr>"
  have h: "size' ?f = Some (Num 30) \<and> gt (Num 30) (Num 10) \<and> lt (Num 30) (Num 50)"
    by (simp add: lt_def)
  have g: "size' png_item = None"
    by (simp add: png_item_def)
  have "fileMatchSize ?f (Some (Num 50)) (Some (Num 10)) =
          (False, Some (getTooLargeRejectionErr (Num 10)))"
    using fileMatchSize_max_precedence [of ?f "Num 30" "Num 10" "Num 50"] h by blast
  moreover have "getTooLargeRejectionErr (Num 10)
      = \<lparr>code = ''file-too-large'', message = ''File is larger than 10 bytes''\<rparr>"
    by code_simp
  moreover have "fileMatchSize png_item (Some (Num 50)) (Some (Num 10)) = (True, None)"
    using fileMatchSize_max_precedence [of png_item _ _ _ "Some (Num 50)" "Some (Num 10)"] g
    by simp
  ultimately show ?thesis using h g by simp
qed

text \<open>
  The input of the specification's example, 100 bytes against a minimum of 50 and a
  maximum of 10, is above the maximum only; it gets the too-large error as well.
\<close>

lemma fileMatchSize_above_max:
  "size' f = Some sz \<Longrightarrow> gt sz mx \<Longrightarrow>
   fileMatchSize f (Some mn) (Some mx) = (False, Some (getTooLargeRejectionErr mx))"
  by (simp add: fileMatchSize_def)

lemma fileMatchSize_spec_example:
  "fileMatchSize ((text_file ''a.txt'')\<lparr>size' := Some (Num 100)\<rparr>) (Some (Num 50)) (Some (Num 10))
     = (False, Some (getTooLargeRejectionErr (Num 10)))"
  using fileMatchSize_above_max
    [of "(text_file ''a.txt'')\<lparr>size' := Some (Num 100)\<rparr>" "Num 100" "Num 10" "Num 50"]
  by simp

section \<open>Type check\<close>

text \<open>
  C7. A file whose reported type is exactly \<open>application/x-moz-file\<close> passes
  \<open>fileAccepted\<close> with no error, whatever the accepted types are.
\<close>

theorem moz_file_always_accepted:
  "type f = Some ''application/x-moz-file'' \<Longrightarrow> fileAccepted f accept = (True, None)"
  by (simp add: fileAccepted_def)

theorem moz_file_always_accepted_witness:
  "type (png_item\<lparr>type := Some ''application/x-moz-file''\<rparr>) = Some ''application/x-moz-file'' \<and>
   fileAccepted (png_item\<lparr>type := Some ''application/x-moz-file''\<rparr>)
     (Some (AcceptArray [''image/png''])) = (True, None) \<and>
   \<not> accepts (png_item\<lparr>type := Some ''application/x-moz-file''\<rparr>) (Some (AcceptArray [''image/png'']))"
proof -
  let ?f = "png_item\<lparr>type := Some ''application/x-moz-file''\<rparr>"
  have h: "type ?f = Some ''application/x-moz-file''"
    by simp
  have "\<not> accepts ?f (Some (AcceptArray [''image/png'']))"
    by (simp add: png_item_def) code_simp
  then show ?thesis
    using moz_file_always_accepted [OF h, of "Some (AcceptArray [''image/png''])"] h by simp
qed

text \<open>
  C9. Called with an empty array of accepted types, \<open>accepts\<close> returns \<open>false\<close> for every
  file, so \<open>fileAccepted\<close> rejects every file that is not the \<open>application/x-moz-file\<close>
  case with the invalid-type error; with no accepted types at all both accept every file.
\<close>

theorem empty_accept_array_rejects:
  "\<not> accepts f (Some (AcceptArray [])) \<and>
   (type f \<noteq> Some ''application/x-moz-file'' \<longrightarrow>
      fileAccepted f (Some (AcceptArray []))
        = (False, Some (getInvalidTypeRejectionErr (Some (AcceptArray []))))) \<and>
   accepts f None \<and> fileAccepted f None = (True, None)"
  by (simp add: accepts_def fileAccepted_def)

theorem empty_accept_array_rejects_witness:
  "type (text_file ''a.txt'') \<noteq> Some ''application/x-moz-file'' \<and>
   fileAccepted (text_file ''a.txt'') (Some (AcceptArray []))
     = (False, Some \<lparr>code = ''file-invalid-type'', message = ''File type must be one of ''\<rparr>) \<and>
   fileAccepted (text_file ''a.txt'') None = (True, None)"
  using empty_accept_array_rejects [of "text_file ''a.txt''"]
  by (simp add: FILE_INVALID_TYPE_def text_file_def)

section \<open>Batch evaluation\<close>

lemma setFiles_each_eq:
  "setFiles_each p a acc f =
     (if file_passes p a f then (fst acc @ [f], snd acc)
      else (fst acc, snd acc @ [file_rejection p a f]))"
  by (cases "fileAccepted f a"; cases "fileMatchSize f (minSize p) (maxSize p)")
     (simp add: setFiles_each_def file_passes_def file_rejection_def Let_def)

lemma foldl_setFiles_each:
  "foldl (setFiles_each p a) acc files =
     (fst acc @ filter (file_passes p a) files,
      snd acc @ map (file_rejection p a) (filter (\<lambda>f. \<not> file_passes p a f) files))"
  by (induction files arbitrary: acc) (simp_all add: setFiles_each_eq)

lemma setFiles_partition_eq:
  "setFiles_partition p a files =
     (if too_many (multiple p) (maxFiles p) (length (filter (file_passes p a) files))
      then ([], map (file_rejection p a) (filter (\<lambda>f. \<not> file_passes p a f) files) @
                map too_many_rejection (filter (file_passes p a) files))
      else (filter (file_passes p a) files,
            map (file_rejection p a) (filter (\<lambda>f. \<not> file_passes p a f) files)))"
  unfolding setFiles_partition_def foldl_setFiles_each
  by (simp add: too_many_rejection_def[abs_def])

lemma too_many_iff:
  "too_many m mf n =
     ((\<not> m \<and> 1 < n) \<or> (m \<and> (\<exists>k. mf = Some (Num k) \<and> 1 \<le> k \<and> k < int n)))"
  by (cases mf; cases "the mf") (auto simp: too_many_def ge_def)

lemma text_file_passes_defaults:
  "maxSize p = Some Infinity \<Longrightarrow> minSize p = Some (Num 0) \<Longrightarrow> validator p = None \<Longrightarrow>
   file_passes p None (text_file n)"
  by (simp add: file_passes_def fileAccepted_def accepts_def fileMatchSize_def text_file_def
      lt_def run_validator_def)

text \<open>
  C2. When the files that pass the per-file checks alone violate the cardinality
  constraint (more than one with \<open>multiple\<close> false, or more than \<open>maxFiles\<close> with
  \<open>multiple\<close> true and \<open>maxFiles\<close> at least 1), \<open>setFiles\<close> dispatches an empty list of
  accepted files, and the rejections are those of the failing files followed by one
  rejection per passing file, in order, each with the single too-many-files error.
\<close>

theorem cardinality_all_or_nothing:
  assumes "(\<not> multiple p \<and> 1 < length (filter (file_passes p a) files)) \<or>
           (multiple p \<and> maxFiles p = Some (Num k) \<and> 1 \<le> k \<and>
            k < int (length (filter (file_passes p a) files)))"
  shows "acceptedFiles (fst (setFiles p a files st)) = [] \<and>
         fileRejections (fst (setFiles p a files st)) =
           map (file_rejection p a) (filter (\<lambda>f. \<not> file_passes p a f) files) @
           map (\<lambda>f. \<lparr>file' = f, errors = [TOO_MANY_FILES_REJECTION]\<rparr>)
             (filter (file_passes p a) files)"
proof -
  have "too_many (multiple p) (maxFiles p) (length (filter (file_passes p a) files))"
    using assms unfolding too_many_iff by blast
  then show ?thesis
    by (simp add: setFiles_def setFiles_partition_eq too_many_rejection_def[abs_def])
qed

text \<open>Three valid files against \<open>multiple\<close> true and \<open>maxFiles\<close> 2.\<close>

theorem cardinality_all_or_nothing_witness:
  "multiple (defaultProps\<lparr>maxFiles := Some (Num 2)\<rparr>) \<and>
   maxFiles (defaultProps\<lparr>maxFiles := Some (Num 2)\<rparr>) = Some (Num 2) \<and>
   2 < int (length (filter (file_passes (defaultProps\<lparr>maxFiles := Some (Num 2)\<rparr>) None)
                      [text_file ''a.txt'', text_file ''b.txt'', text_file ''c.txt''])) \<and>
   acceptedFiles (fst (setFiles (defaultProps\<lparr>maxFiles := Some (Num 2)\<rparr>) None
      [text_file ''a.txt'', text_file ''b.txt'', text_file ''c.txt''] initialState)) = [] \<and>
   fileRejections (fst (setFiles (defaultProps\<lparr>maxFiles := Some (Num 2)\<rparr>) None
      [text_file ''a.txt'', text_file ''b.txt'', text_file ''c.txt''] initialState)) =
     [\<lparr>file' = text_file ''a.txt'', errors = [TOO_MANY_FILES_REJECTION]\<rparr>,
      \<lparr>file' = text_file ''b.txt'', errors = [TOO_MANY_FILES_REJECTION]\<rparr>,
      \<lparr>file' = text_file ''c.txt'', errors = [TOO_MANY_FILES_REJECTION]\<rparr>]"
proof -
  let ?p = "defaultProps\<lparr>maxFiles := Some (Num 2)\<rparr>"
  let ?fs = "[text_file ''a.txt'', text_file ''b.txt'', text_file ''c.txt'']"
  have fp: "file_passes ?p None (text_file n)" for n
    by (rule text_file_passes_defaults) (simp_all add: defaultProps_def)
  have fl: "filter (file_passes ?p None) ?fs = ?fs"
    and nfl: "filter (\<lambda>f. \<not> file_passes ?p None f) ?fs = []"
    by (simp_all add: fp)
  have h: "multiple ?p \<and> maxFiles ?p = Some (Num 2) \<and> (1::int) \<le> 2 \<and>
           2 < int (length (filter (file_passes ?p None) ?fs))"
    unfolding fl by (simp add: defaultProps_def)
  show ?thesis
    using cardinality_all_or_nothing [of ?p None ?fs 2 initialState] h
    unfolding fl nfl by simp
qed

subsection \<open>With a validator that is called once per file\<close>

lemma setFiles_each_stateful_cases:
  assumes "setFiles_each_stateful p a cb ((A, R), s) f = ((A', R'), s')"
  shows "s' = snd (call_validator cb s f) \<and>
         ((A' = A @ [f] \<and> R' = R \<and>
           (fst (fileAccepted f a) \<and> fst (fileMatchSize f (minSize p) (maxSize p)) \<and>
            \<not> truthy_errors (fst (call_validator cb s f)))) \<or>
          (A' = A \<and> (\<exists>r. R' = R @ [r] \<and> file' r = f) \<and>
           \<not> (fst (fileAccepted f a) \<and> fst (fileMatchSize f (minSize p) (maxSize p)) \<and>
              \<not> truthy_errors (fst (call_validator cb s f)))))"
  using assms
  by (cases "fileAccepted f a"; cases "fileMatchSize f (minSize p) (maxSize p)";
      cases "call_validator cb s f")
     (auto simp: setFiles_each_stateful_def Let_def split: if_splits)

lemma foldl_stateful_union:
  assumes "foldl (setFiles_each_stateful p a cb) ((A0, R0), s0) files = ((A, R), s)"
  shows "set A \<union> file' ` set R = set A0 \<union> file' ` set R0 \<union> set files"
  using assms
proof (induction files arbitrary: A0 R0 s0)
  case Nil
  then show ?case by simp
next
  case (Cons f files)
  obtain A1 R1 s1 where step: "setFiles_each_stateful p a cb ((A0, R0), s0) f = ((A1, R1), s1)"
    by (metis prod.exhaust)
  with Cons.prems have "foldl (setFiles_each_stateful p a cb) ((A1, R1), s1) files = ((A, R), s)"
    by simp
  from Cons.IH [OF this]
  have "set A \<union> file' ` set R = set A1 \<union> file' ` set R1 \<union> set files" .
  moreover have "set A1 \<union> file' ` set R1 = set A0 \<union> file' ` set R0 \<union> {f}"
    using setFiles_each_stateful_cases [OF step] by auto
  ultimately show ?case by auto
qed

lemma foldl_stateful_distinct:
  assumes "foldl (setFiles_each_stateful p a cb) ((A0, R0), s0) files = ((A, R), s)"
    and "distinct files"
    and "set files \<inter> (set A0 \<union> file' ` set R0) = {}"
    and "set A0 \<inter> file' ` set R0 = {}"
  shows "set A \<inter> file' ` set R = {}"
  using assms
proof (induction files arbitrary: A0 R0 s0)
  case Nil
  then show ?case by simp
next
  case (Cons f files)
  obtain A1 R1 s1 where step: "setFiles_each_stateful p a cb ((A0, R0), s0) f = ((A1, R1), s1)"
    by (metis prod.exhaust)
  with Cons.prems(1) have fold: "foldl (setFiles_each_stateful p a cb) ((A1, R1), s1) files = ((A, R), s)"
    by simp
  have one: "(set A1 = set A0 \<union> {f} \<and> file' ` set R1 = file' ` set R0) \<or>
             (set A1 = set A0 \<and> file' ` set R1 = file' ` set R0 \<union> {f})"
    using setFiles_each_stateful_cases [OF step] by auto
  have "distinct files" and "f \<notin> set files"
    using Cons.prems(2) by simp_all
  moreover have fresh: "f \<notin> set A0 \<union> file' ` set R0"
    and rest: "set files \<inter> (set A0 \<union> file' ` set R0) = {}"
    using Cons.prems(3) by auto
  moreover have "set files \<inter> (set A1 \<union> file' ` set R1) = {}"
    using one rest \<open>f \<notin> set files\<close> by blast
  moreover have "set A1 \<inter> file' ` set R1 = {}"
    using one fresh Cons.prems(4) by blast
  ultimately show ?case
    using Cons.IH [OF fold] by blast
qed

lemma foldl_stateful_verdict:
  assumes "foldl (setFiles_each_stateful p a cb) ((A0, R0), s0) files = ((A, R), s)"
    and "\<And>s f. fst (call_validator cb s f) = g f"
    and "\<forall>x\<in>set A0. fst (fileAccepted x a) \<and> fst (fileMatchSize x (minSize p) (maxSize p)) \<and>
            \<not> truthy_errors (g x)"
    and "\<forall>x\<in>file' ` set R0. \<not> (fst (fileAccepted x a) \<and>
            fst (fileMatchSize x (minSize p) (maxSize p)) \<and> \<not> truthy_errors (g x))"
  shows "set A \<inter> file' ` set R = {}"
  using assms(1,3,4)
proof (induction files arbitrary: A0 R0 s0)
  case Nil
  then show ?case by auto
next
  case (Cons f files)
  obtain A1 R1 s1 where step: "setFiles_each_stateful p a cb ((A0, R0), s0) f = ((A1, R1), s1)"
    by (metis prod.exhaust)
  with Cons.prems(1) have fold: "foldl (setFiles_each_stateful p a cb) ((A1, R1), s1) files = ((A, R), s)"
    by simp
  note c = setFiles_each_stateful_cases [OF step, unfolded assms(2)]
  have "\<forall>x\<in>set A1. fst (fileAccepted x a) \<and> fst (fileMatchSize x (minSize p) (maxSize p)) \<and>
            \<not> truthy_errors (g x)"
    using c Cons.prems(2) by auto
  moreover have "\<forall>x\<in>file' ` set R1. \<not> (fst (fileAccepted x a) \<and>
            fst (fileMatchSize x (minSize p) (maxSize p)) \<and> \<not> truthy_errors (g x))"
    using c Cons.prems(3) by auto
  ultimately show ?case
    using Cons.IH [OF fold] by blast
qed


lemma setFiles_stateful_state:
  assumes "foldl (setFiles_each_stateful p a cb) (([], []), s) files = ((A, R), s1)"
  shows "acceptedFiles (fst (fst (setFiles_stateful p a cb s files st))) =
           (if too_many (multiple p) (maxFiles p) (length A) then [] else A)"
    and "file' ` set (fileRejections (fst (fst (setFiles_stateful p a cb s files st)))) =
           (if too_many (multiple p) (maxFiles p) (length A)
            then file' ` set R \<union> set A else file' ` set R)"
  using assms
  by (simp_all add: setFiles_stateful_def setFiles_partition_stateful_def image_Un image_image)

lemma setFiles_each_stateless:
  "setFiles_each_stateful p a (map_option stateless (validator p)) (acc, s) f =
     (setFiles_each p a acc f, s)"
  by (cases "validator p"; cases "fileAccepted f a"; cases "fileMatchSize f (minSize p) (maxSize p)")
     (simp_all add: setFiles_each_stateful_def setFiles_each_def call_validator_def stateless_def
        run_validator_def Let_def)

lemma foldl_setFiles_each_stateless:
  "foldl (setFiles_each_stateful p a (map_option stateless (validator p))) (acc, s) files =
     (foldl (setFiles_each p a) acc files, s)"
  by (induction files arbitrary: acc) (simp_all add: setFiles_each_stateless)

lemma setFiles_partition_stateless:
  "setFiles_partition_stateful p a (map_option stateless (validator p)) s files =
     (setFiles_partition p a files, s)"
  by (cases "foldl (setFiles_each p a) ([], []) files")
     (simp add: setFiles_partition_stateful_def setFiles_partition_def
        foldl_setFiles_each_stateless)

text \<open>
  With a validator that is a function of the file, the state-passing \<open>setFiles\<close> is the
  \<open>setFiles\<close> above and leaves the callback's state as it was.
\<close>

lemma setFiles_stateful_stateless:
  "setFiles_stateful p a (map_option stateless (validator p)) s files st =
     (setFiles p a files st, s)"
  by (cases "setFiles_partition p a files")
     (simp add: setFiles_stateful_def setFiles_def setFiles_partition_stateless)

text \<open>
  C3 (as the code has it). After \<open>setFiles\<close> has processed a batch, with the validator
  called once per file, the accepted files and the files of the rejections in the
  dispatched state together are exactly the files of the batch, as sets. They are
  disjoint when no file occurs twice in the batch, and when the answer of the validator,
  if there is one, depends on the file only.
\<close>

theorem accepted_rejected_partition_batch:
  assumes "st' = fst (fst (setFiles_stateful p a cb s files st))"
  shows "set (acceptedFiles st') \<union> file' ` set (fileRejections st') = set files \<and>
         (distinct files \<longrightarrow> set (acceptedFiles st') \<inter> file' ` set (fileRejections st') = {}) \<and>
         ((\<exists>g. \<forall>s f. fst (call_validator cb s f) = g f) \<longrightarrow>
            set (acceptedFiles st') \<inter> file' ` set (fileRejections st') = {})"
proof -
  obtain A R s1 where
    fold: "foldl (setFiles_each_stateful p a cb) (([], []), s) files = ((A, R), s1)"
    by (metis prod.exhaust)
  note st = setFiles_stateful_state [OF fold, of st, folded assms]
  have u: "set A \<union> file' ` set R = set files"
    using foldl_stateful_union [OF fold] by simp
  have d1: "set A \<inter> file' ` set R = {}" if "distinct files"
    using foldl_stateful_distinct [OF fold that] by simp
  have d2: "set A \<inter> file' ` set R = {}" if "\<exists>g. \<forall>s f. fst (call_validator cb s f) = g f"
  proof -
    from that obtain g where "\<And>s f. fst (call_validator cb s f) = g f"
      by blast
    from foldl_stateful_verdict [OF fold this] show ?thesis
      by simp
  qed
  show ?thesis
  proof (cases "too_many (multiple p) (maxFiles p) (length A)")
    case True
    then show ?thesis using st u by auto
  next
    case False
    then show ?thesis using st u d1 d2 by auto
  qed
qed

text \<open>
  A text file and a dragged image, and the same text file twice against no validator.
\<close>

theorem accepted_rejected_partition_batch_witness:
  "distinct [text_file ''a.txt'', png_item] \<and>
   acceptedFiles (fst (fst (setFiles_stateful defaultProps None (Some second_call_rejects) False
      [text_file ''a.txt'', png_item] initialState))) = [text_file ''a.txt''] \<and>
   map file' (fileRejections (fst (fst (setFiles_stateful defaultProps None
      (Some second_call_rejects) False [text_file ''a.txt'', png_item] initialState)))) = [png_item] \<and>
   set (acceptedFiles (fst (fst (setFiles_stateful defaultProps None (Some second_call_rejects) False
      [text_file ''a.txt'', png_item] initialState)))) \<inter>
     file' ` set (fileRejections (fst (fst (setFiles_stateful defaultProps None
      (Some second_call_rejects) False [text_file ''a.txt'', png_item] initialState)))) = {} \<and>
   set (acceptedFiles (fst (fst (setFiles_stateful defaultProps None (Some second_call_rejects) False
      [text_file ''a.txt'', png_item] initialState)))) \<union>
     file' ` set (fileRejections (fst (fst (setFiles_stateful defaultProps None
      (Some second_call_rejects) False [text_file ''a.txt'', png_item] initialState)))) =
     {text_file ''a.txt'', png_item} \<and>
   fst (call_validator None True (text_file ''a.txt'')) = NoErrors \<and>
   acceptedFiles (fst (fst (setFiles_stateful defaultProps None None True
      [text_file ''a.txt'', text_file ''a.txt''] initialState))) =
     [text_file ''a.txt'', text_file ''a.txt''] \<and>
   set (acceptedFiles (fst (fst (setFiles_stateful defaultProps None None True
      [text_file ''a.txt'', text_file ''a.txt''] initialState)))) \<inter>
     file' ` set (fileRejections (fst (fst (setFiles_stateful defaultProps None None True
      [text_file ''a.txt'', text_file ''a.txt''] initialState)))) = {}"
proof -
  let ?cb = "Some second_call_rejects"
  let ?fs = "[text_file ''a.txt'', png_item]"
  let ?gs = "[text_file ''a.txt'', text_file ''a.txt'']"
  have d: "distinct ?fs"
    by (simp add: text_file_def png_item_def)
  have ok: "fileAccepted (text_file ''a.txt'') None = (True, None)"
    "fileMatchSize (text_file ''a.txt'') (minSize defaultProps) (maxSize defaultProps) = (True, None)"
    "fileAccepted png_item None = (True, None)"
    "fileMatchSize png_item (minSize defaultProps) (maxSize defaultProps) = (True, None)"
    by (simp_all add: fileAccepted_def accepts_def fileMatchSize_def text_file_def png_item_def
        defaultProps_def lt_def)
  have few: "\<not> too_many (multiple defaultProps) (maxFiles defaultProps) n" for n
    by (simp add: too_many_def defaultProps_def ge_def)
  have f1: "foldl (setFiles_each_stateful defaultProps None ?cb) (([], []), False) ?fs =
              (([text_file ''a.txt''],
                [\<lparr>file' = png_item,
                  errors = [\<lparr>code = ''custom'', message = ''rejected''\<rparr>]\<rparr>]), True)"
    by (simp add: setFiles_each_stateful_def call_validator_def second_call_rejects_def
          custom_error_list_def List.map_filter_def ok)
  have f2: "foldl (setFiles_each_stateful defaultProps None None) (([], []), True) ?gs =
              ((?gs, []), True)"
    by (simp add: setFiles_each_stateful_def call_validator_def ok)
  have a1: "acceptedFiles (fst (fst (setFiles_stateful defaultProps None ?cb False ?fs initialState)))
              = [text_file ''a.txt'']"
    and r1: "map file' (fileRejections (fst (fst (setFiles_stateful defaultProps None ?cb False ?fs
              initialState)))) = [png_item]"
    using f1 few by (simp_all add: setFiles_stateful_def setFiles_partition_stateful_def)
  have a2: "acceptedFiles (fst (fst (setFiles_stateful defaultProps None None True ?gs initialState)))
              = ?gs"
    using f2 few by (simp add: setFiles_stateful_def setFiles_partition_stateful_def)
  have "\<forall>s f. fst (call_validator (None :: bool validator_callback option) s f) = NoErrors"
    by (simp add: call_validator_def)
  then have g: "\<exists>g. \<forall>s f. fst (call_validator (None :: bool validator_callback option) s f) = g f"
    by (rule exI [where x = "\<lambda>f. NoErrors"])
  have c: "fst (call_validator None True (text_file ''a.txt'')) = NoErrors"
    by (simp add: call_validator_def)
  show ?thesis
    using accepted_rejected_partition_batch [OF refl, of defaultProps None ?cb False ?fs initialState]
      accepted_rejected_partition_batch [OF refl, of defaultProps None None True ?gs initialState]
      d g c a1 r1 a2
    by simp
qed

text \<open>
  The claim as the specification has it, that the two sequences are disjoint after any
  batch, fails when a file occurs twice and the validator passes it at its first call and
  rejects it at its second: the file is accepted and rejected.
\<close>

theorem accepted_rejected_overlap_counterexample:
  "acceptedFiles (fst (fst (setFiles_stateful defaultProps None (Some second_call_rejects) False
      [text_file ''a.txt'', text_file ''a.txt''] initialState))) = [text_file ''a.txt''] \<and>
   map file' (fileRejections (fst (fst (setFiles_stateful defaultProps None
      (Some second_call_rejects) False [text_file ''a.txt'', text_file ''a.txt''] initialState)))) =
     [text_file ''a.txt''] \<and>
   set (acceptedFiles (fst (fst (setFiles_stateful defaultProps None (Some second_call_rejects) False
      [text_file ''a.txt'', text_file ''a.txt''] initialState)))) \<inter>
     file' ` set (fileRejections (fst (fst (setFiles_stateful defaultProps None
      (Some second_call_rejects) False [text_file ''a.txt'', text_file ''a.txt''] initialState))))
     \<noteq> {}"
proof -
  let ?cb = "Some second_call_rejects"
  let ?fs = "[text_file ''a.txt'', text_file ''a.txt'']"
  have ok: "fileAccepted (text_file ''a.txt'') None = (True, None) \<and>
            fileMatchSize (text_file ''a.txt'') (minSize defaultProps) (maxSize defaultProps) =
              (True, None)"
    by (simp add: fileAccepted_def accepts_def fileMatchSize_def text_file_def
        defaultProps_def lt_def)
  have few: "\<not> too_many (multiple defaultProps) (maxFiles defaultProps) n" for n
    by (simp add: too_many_def defaultProps_def ge_def)
  have f1: "foldl (setFiles_each_stateful defaultProps None ?cb) (([], []), False) ?fs =
              (([text_file ''a.txt''],
                [\<lparr>file' = text_file ''a.txt'',
                  errors = [\<lparr>code = ''custom'', message = ''rejected''\<rparr>]\<rparr>]), True)"
    by (simp add: setFiles_each_stateful_def call_validator_def second_call_rejects_def
          custom_error_list_def List.map_filter_def ok)
  show ?thesis
    using f1 few by (simp add: setFiles_stateful_def setFiles_partition_stateful_def)
qed

subsection \<open>A batch of one file\<close>



section \<open>The reducer\<close>

text \<open>
  C8. The \<open>closeDialog\<close> action sets \<open>isFileDialogActive\<close> to false and leaves every
  other field of the state as it was.
\<close>

theorem closeDialog_frame:
  "reducer st CloseDialog = st\<lparr>isFileDialogActive := False\<rparr> \<and>
   isFileDialogActive (reducer st CloseDialog) = False \<and>
   isFocused (reducer st CloseDialog) = isFocused st \<and>
   isDragActive (reducer st CloseDialog) = isDragActive st \<and>
   isDragAccept (reducer st CloseDialog) = isDragAccept st \<and>
   isDragReject (reducer st CloseDialog) = isDragReject st \<and>
   acceptedFiles (reducer st CloseDialog) = acceptedFiles st \<and>
   fileRejections (reducer st CloseDialog) = fileRejections st"
  by simp

theorem closeDialog_frame_witness:
  "reducer (reducer initialState OpenDialog) CloseDialog = initialState"
  using closeDialog_frame [of "reducer initialState OpenDialog"]
  by (simp add: initialState_def)

section \<open>The drag decision\<close>

lemma allFilesAccepted_eq:
  "allFilesAccepted files a (minSize p) (maxSize p) (multiple p) (maxFiles p) (validator p) =
     (\<not> too_many (multiple p) (maxFiles p) (length files) \<and> list_all (file_passes p a) files)"
  unfolding allFilesAccepted_def file_passes_def[abs_def] Let_def by simp

lemma file_passes_no_validator:
  "validator p = None \<Longrightarrow>
   file_passes p a = (\<lambda>f. fst (fileAccepted f a) \<and> fst (fileMatchSize f (minSize p) (maxSize p)))"
  by (simp add: file_passes_def[abs_def] run_validator_def)

text \<open>
  C1 (as the code has it). On a \<open>dragenter\<close> event that carries files, once the extraction
  has resolved and unless propagation was stopped, the dispatched drag probe has
  \<open>isDragActive\<close> true; \<open>isDragAccept\<close> holds exactly when the batch is non-empty, within
  the cardinality constraint, and every file passes the type check, the size check and
  the custom validator; \<open>isDragReject\<close> holds for any other non-empty batch. When no
  validator is configured the decision rests on type, size and cardinality alone.
\<close>

theorem dragenter_decision:
  assumes "isEvtWithFiles event"
    and "\<not> (isPropagationStopped event \<and> \<not> noDragEventsBubbling p)"
    and "st' = state (fst (onDragEnterCb p a event (Some files) s))"
  shows "isDragActive st' \<and>
         isDragAccept st' =
           (files \<noteq> [] \<and> \<not> too_many (multiple p) (maxFiles p) (length files) \<and>
            list_all (file_passes p a) files) \<and>
         isDragReject st' = (files \<noteq> [] \<and> \<not> isDragAccept st') \<and>
         (validator p = None \<longrightarrow>
            isDragAccept st' =
              (files \<noteq> [] \<and> \<not> too_many (multiple p) (maxFiles p) (length files) \<and>
               list_all (\<lambda>f. fst (fileAccepted f a) \<and>
                              fst (fileMatchSize f (minSize p) (maxSize p))) files))"
proof -
  have st': "st' =
          reducer (state s)
            (SetDraggedFiles True
               (files \<noteq> [] \<and> \<not> too_many (multiple p) (maxFiles p) (length files) \<and>
                  list_all (file_passes p a) files)
               (files \<noteq> [] \<and> \<not> (files \<noteq> [] \<and> \<not> too_many (multiple p) (maxFiles p) (length files) \<and>
                  list_all (file_passes p a) files)))"
    using assms by (auto simp: onDragEnterCb_def Let_def allFilesAccepted_eq)
  show ?thesis
    unfolding st' using file_passes_no_validator [of p a] by auto
qed

text \<open>A dragged image of an accepted type against a validator that rejects every file.\<close>

theorem dragenter_decision_witness:
  "isEvtWithFiles dragenter_event \<and>
   \<not> (isPropagationStopped dragenter_event \<and>
       \<not> noDragEventsBubbling (defaultProps\<lparr>validator := Some reject_all\<rparr>)) \<and>
   isDragActive (state (fst (onDragEnterCb (defaultProps\<lparr>validator := Some reject_all\<rparr>) None
      dragenter_event (Some [png_item]) idle_surface))) \<and>
   \<not> isDragAccept (state (fst (onDragEnterCb (defaultProps\<lparr>validator := Some reject_all\<rparr>) None
      dragenter_event (Some [png_item]) idle_surface))) \<and>
   isDragReject (state (fst (onDragEnterCb (defaultProps\<lparr>validator := Some reject_all\<rparr>) None
      dragenter_event (Some [png_item]) idle_surface))) \<and>
   validator defaultProps = None \<and>
   isDragAccept (state (fst (onDragEnterCb defaultProps None dragenter_event (Some [png_item])
      idle_surface))) \<and>
   \<not> isDragReject (state (fst (onDragEnterCb defaultProps None dragenter_event (Some [png_item])
      idle_surface)))"
proof -
  let ?p = "defaultProps\<lparr>validator := Some reject_all\<rparr>"
  have h1: "isEvtWithFiles dragenter_event"
    by (simp add: isEvtWithFiles_def dragenter_event_def)
  have h2: "\<not> (isPropagationStopped dragenter_event \<and> \<not> noDragEventsBubbling ?p)"
    and h3: "\<not> (isPropagationStopped dragenter_event \<and> \<not> noDragEventsBubbling defaultProps)"
    by (simp_all add: isPropagationStopped_def dragenter_event_def)
  have fp: "\<not> file_passes ?p None png_item"
    by (simp add: file_passes_def run_validator_def reject_all_def)
  have v: "validator defaultProps = None"
    by (simp add: defaultProps_def)
  have ok: "fst (fileAccepted png_item None) \<and>
            fst (fileMatchSize png_item (minSize defaultProps) (maxSize defaultProps)) \<and>
            \<not> too_many (multiple defaultProps) (maxFiles defaultProps) (Suc 0)"
    by (simp add: fileAccepted_def accepts_def fileMatchSize_def png_item_def too_many_def
        defaultProps_def ge_def)
  have rejecting: "isDragActive (state (fst (onDragEnterCb ?p None dragenter_event (Some [png_item]) idle_surface))) \<and>
      \<not> isDragAccept (state (fst (onDragEnterCb ?p None dragenter_event (Some [png_item]) idle_surface))) \<and>
      isDragReject (state (fst (onDragEnterCb ?p None dragenter_event (Some [png_item]) idle_surface)))"
    using dragenter_decision [OF h1 h2 refl, of None "[png_item]" idle_surface] fp
    by simp
  have plain: "isDragAccept (state (fst (onDragEnterCb defaultProps None dragenter_event (Some [png_item]) idle_surface))) \<and>
      \<not> isDragReject (state (fst (onDragEnterCb defaultProps None dragenter_event (Some [png_item]) idle_surface)))"
    using dragenter_decision [OF h1 h3 refl, of None "[png_item]" idle_surface] ok
    by (simp add: file_passes_def run_validator_def v)
  from h1 h2 v rejecting plain show ?thesis by blast
qed

text \<open>
  The claim as the specification has it, that the validator is not consulted on
  \<open>dragenter\<close>, fails: the same item that passes type, size and cardinality is accepted
  without the validator and rejected with it.
\<close>

theorem dragenter_validator_counterexample:
  "fst (fileAccepted png_item None) \<and>
   fst (fileMatchSize png_item (minSize defaultProps) (maxSize defaultProps)) \<and>
   \<not> too_many (multiple defaultProps) (maxFiles defaultProps) (length [png_item]) \<and>
   isDragAccept (state (fst (onDragEnterCb (defaultProps\<lparr>validator := None\<rparr>) None
      dragenter_event (Some [png_item]) idle_surface))) \<and>
   \<not> isDragAccept (state (fst (onDragEnterCb (defaultProps\<lparr>validator := Some reject_all\<rparr>) None
      dragenter_event (Some [png_item]) idle_surface))) \<and>
   isDragReject (state (fst (onDragEnterCb (defaultProps\<lparr>validator := Some reject_all\<rparr>) None
      dragenter_event (Some [png_item]) idle_surface)))"
  by (simp add: onDragEnterCb_def allFilesAccepted_def fileAccepted_def accepts_def
      fileMatchSize_def png_item_def defaultProps_def too_many_def ge_def run_validator_def
      reject_all_def dragenter_event_def isEvtWithFiles_def isPropagationStopped_def
      idle_surface_def Let_def)

section \<open>Directory extraction\<close>

lemma flatten_Cons: "flatten (v # vs) = flatten [v] @ flatten vs"
  by (cases v) simp_all

lemma flatten_append: "flatten (xs @ ys) = flatten xs @ flatten ys"
  by (induction xs rule: flatten.induct) simp_all

lemma promise_all_snoc:
  "promise_all (ps @ [q]) =
     (case promise_all ps of
        None \<Rightarrow> None
      | Some vs \<Rightarrow> (case q of None \<Rightarrow> None | Some v \<Rightarrow> Some (vs @ [v])))"
  by (induction ps rule: promise_all.induct) (simp_all split: option.splits)

lemma promise_all_None_iff: "promise_all ps = None \<longleftrightarrow> None \<in> set ps"
  by (induction ps rule: promise_all.induct) (auto split: option.splits)

lemma promise_all_map_flatten:
  assumes "\<And>x v. x \<in> set xs \<Longrightarrow> g x = Some v \<Longrightarrow> flatten [v] = G x"
    and "promise_all (map g xs) = Some vs"
  shows "flatten vs = concat (map G xs)"
  using assms
proof (induction xs arbitrary: vs)
  case Nil
  then show ?case by simp
next
  case (Cons x xs)
  from Cons.prems(2) obtain v ws where v: "g x = Some v"
    and ws: "promise_all (map g xs) = Some ws" and vs: "vs = v # ws"
    by (cases "g x") (auto split: option.splits)
  have "flatten ws = concat (map G xs)"
    using Cons.IH [OF _ ws] Cons.prems(1) by simp
  moreover have "flatten [v] = G x"
    using Cons.prems(1) v by simp
  ultimately show ?case
    using vs flatten_Cons [of v ws] by simp
qed

text \<open>
  A directory read that resolves flattens to the listing of the tree; \<open>readEntries\<close>
  keeps what the promises pushed so far resolve with in front of it.
\<close>

lemma extraction_listing:
  "\<And>v. fromEntry e = Some v \<Longrightarrow> flatten [v] = map with_full_path (entry_listing e)"
  "\<And>v. readEntries bs ok entries = Some v \<Longrightarrow>
     \<exists>ws. promise_all entries = Some ws \<and>
          flatten [v] = flatten ws @ map with_full_path (batches_listing bs)"
proof (induction e and bs ok entries rule: fromEntry_readEntries.induct)
  case (1 fullPath fileResult)
  then show ?case
    by (auto simp: fromFileEntry_def with_full_path_def split: option.splits)
next
  case (2 batches ok)
  from 2(2) have "readEntries batches ok [] = Some v" by simp
  from 2(1) [OF this] show ?case by simp
next
  case (3 ok entries)
  then show ?case by (auto split: if_splits)
next
  case (4 batch rest ok entries)
  show ?case
  proof (cases "batch = []")
    case True
    with 4(3) show ?thesis by auto
  next
    case False
    let ?q = "map_option ArrayV (promise_all (map fromEntry batch))"
    from 4(3) False have "readEntries rest ok (entries @ [?q]) = Some v" by simp
    from 4(2) [OF False this] obtain ws' where
      ws': "promise_all (entries @ [?q]) = Some ws'"
      and fl: "flatten [v] = flatten ws' @ map with_full_path (batches_listing rest)"
      by blast
    from ws' obtain ws vs where ws: "promise_all entries = Some ws"
      and vs: "promise_all (map fromEntry batch) = Some vs"
      and eq: "ws' = ws @ [ArrayV vs]"
      by (auto simp: promise_all_snoc split: option.splits)
    have "flatten vs = concat (map (\<lambda>x. map with_full_path (entry_listing x)) batch)"
      using 4(1) [OF False] vs by (rule promise_all_map_flatten)
    then have "flatten ws' = flatten ws @ map with_full_path (concat (map entry_listing batch))"
      using eq by (simp add: flatten_append map_concat comp_def)
    with fl ws False show ?thesis by simp
  qed
qed

text \<open>When every read succeeds the directory read resolves.\<close>

lemma extraction_resolves:
  "entry_reads_ok e \<Longrightarrow> fromEntry e \<noteq> None"
  "batches_read_ok bs ok \<Longrightarrow> promise_all entries \<noteq> None \<Longrightarrow> readEntries bs ok entries \<noteq> None"
proof (induction e and bs ok entries rule: fromEntry_readEntries.induct)
  case (1 fullPath fileResult)
  then show ?case by (auto simp: fromFileEntry_def)
next
  case (2 batches ok)
  then show ?case by simp
next
  case (3 ok entries)
  then show ?case by auto
next
  case (4 batch rest ok entries)
  show ?case
  proof (cases "batch = []")
    case True
    with 4(4) show ?thesis by auto
  next
    case False
    with 4(3) have all: "list_all entry_reads_ok batch" and rest: "batches_read_ok rest ok"
      by simp_all
    have "fromEntry x \<noteq> None" if "x \<in> set batch" for x
      using 4(1) [OF False that] all that by (simp add: list_all_iff)
    then have "None \<notin> set (map fromEntry batch)"
      by force
    then obtain vs where "promise_all (map fromEntry batch) = Some vs"
      using promise_all_None_iff [of "map fromEntry batch"] by (cases "promise_all (map fromEntry batch)") auto
    then have "promise_all (entries @ [map_option ArrayV (promise_all (map fromEntry batch))]) \<noteq> None"
      using 4(4) by (auto simp: promise_all_snoc split: option.splits)
    from 4(2) [OF False rest this] False show ?thesis by simp
  qed
qed

lemma path_with_full_path:
  "path (with_full_path pf) = (case path (snd pf) of None \<Rightarrow> Some (fst pf) | Some q \<Rightarrow> Some q)"
  by (simp add: with_full_path_def toFileWithPath_def withMimeType_def Let_def split: option.splits)

lemma with_full_path_text_file:
  "with_full_path (p, text_file n) = (text_file n)\<lparr>path := Some p\<rparr>"
  by (simp add: with_full_path_def toFileWithPath_def withMimeType_def text_file_def or_empty_def)

text \<open>
  C5 (as the code has it). When every read of a dropped directory succeeds, its read
  resolves, and flattening the result gives one flat sequence whatever the nesting depth:
  the files of all enumeration batches in order, each sub-directory replaced by its own
  files. A file that has no path yet carries the full path of its entry; a file that
  already has one, as on Electron, keeps it. The drop of the directory resolves with this
  sequence less the files with an ignored name.
\<close>

theorem directory_extraction_flat:
  assumes "batches_read_ok batches ok"
  shows "(\<exists>v. fromDirEntry (DirEntry batches ok) = Some v \<and>
              flatten [v] = map with_full_path (entry_listing (DirEntry batches ok))) \<and>
         list_all (\<lambda>pf. path (with_full_path pf) =
                          (case path (snd pf) of None \<Rightarrow> Some (fst pf) | Some q \<Rightarrow> Some q))
           (entry_listing (DirEntry batches ok)) \<and>
         getDataTransferFiles
           (DataTransfer ts (Items [DataTransferItem ''file'' t (Some (Some (DirEntry batches ok))) g])
              fl) ''drop'' =
         Some (map ExtractedFile
                 (noIgnoredFiles (map with_full_path (entry_listing (DirEntry batches ok)))))"
proof -
  have "fromEntry (DirEntry batches ok) \<noteq> None"
    using assms extraction_resolves(1) [of "DirEntry batches ok"] by simp
  then obtain v where v: "fromEntry (DirEntry batches ok) = Some v"
    by blast
  have fv: "flatten [v] = map with_full_path (entry_listing (DirEntry batches ok))"
    using extraction_listing(1) [OF v] .
  from v have d: "fromDirEntry (DirEntry batches ok) = Some v"
    by (simp add: fromDirEntry_def)
  have paths: "list_all (\<lambda>pf. path (with_full_path pf) =
                          (case path (snd pf) of None \<Rightarrow> Some (fst pf) | Some q \<Rightarrow> Some q))
           (entry_listing (DirEntry batches ok))"
    by (simp add: list_all_iff path_with_full_path)
  have "getDataTransferFiles
           (DataTransfer ts (Items [DataTransferItem ''file'' t (Some (Some (DirEntry batches ok))) g])
              fl) ''drop'' =
         Some (map ExtractedFile
                 (noIgnoredFiles (map with_full_path (entry_listing (DirEntry batches ok)))))"
    using d fv by (simp add: getDataTransferFiles_def toFilePromises_def)
  with d fv paths show ?thesis by blast
qed

text \<open>
  The directory \<open>photos\<close>, with one file at depth 0 and one at depth 2, yields two files
  in one flat list, each with its full path.
\<close>

lemma photos_dir_listing:
  "entry_listing photos_dir =
     [(''/photos/a.txt'', text_file ''a.txt''), (''/photos/x/y/b.txt'', text_file ''b.txt'')]"
  by (simp add: photos_dir_def)

lemma noIgnoredFiles_txt:
  "noIgnoredFiles [(text_file ''a.txt'')\<lparr>path := Some p\<rparr>, (text_file ''b.txt'')\<lparr>path := Some q\<rparr>] =
     [(text_file ''a.txt'')\<lparr>path := Some p\<rparr>, (text_file ''b.txt'')\<lparr>path := Some q\<rparr>]"
  by (simp add: noIgnoredFiles_def FILES_TO_IGNORE_def text_file_def)

theorem directory_extraction_flat_witness:
  "batches_read_ok
     [[FileEntry ''/photos/a.txt'' (Some (text_file ''a.txt'')),
       DirEntry [[DirEntry [[FileEntry ''/photos/x/y/b.txt'' (Some (text_file ''b.txt''))]] True]]
         True]] True \<and>
   getDataTransferFiles
     (DataTransfer [''Files'']
        (Items [DataTransferItem ''file'' [] (Some (Some photos_dir)) None]) (Items []))
     ''drop'' =
   Some [ExtractedFile ((text_file ''a.txt'')\<lparr>path := Some ''/photos/a.txt''\<rparr>),
         ExtractedFile ((text_file ''b.txt'')\<lparr>path := Some ''/photos/x/y/b.txt''\<rparr>)]"
proof -
  let ?bs = "[[FileEntry ''/photos/a.txt'' (Some (text_file ''a.txt'')),
       DirEntry [[DirEntry [[FileEntry ''/photos/x/y/b.txt'' (Some (text_file ''b.txt''))]] True]]
         True]]"
  have ok: "batches_read_ok ?bs True"
    by simp
  have dir: "DirEntry ?bs True = photos_dir"
    by (simp add: photos_dir_def)
  show ?thesis
    using directory_extraction_flat [OF ok, of "[''Files'']" "[]" None "Items []"] ok
    unfolding dir photos_dir_listing
    by (simp add: with_full_path_text_file noIgnoredFiles_txt)
qed

text \<open>
  The claim as the specification has it, that each file carries the full path of its
  entry, fails for a file that already has a path: it keeps the one it has.
\<close>

theorem directory_path_counterexample:
  "fromDirEntry docs_dir = Some (ArrayV [ArrayV [FileV electron_file]]) \<and>
   flatten [ArrayV [ArrayV [FileV electron_file]]] = [electron_file] \<and>
   entry_listing docs_dir = [(''/docs/a.txt'', electron_file)] \<and>
   path electron_file = Some ''/home/u/docs/a.txt'' \<and>
   path electron_file \<noteq> Some ''/docs/a.txt''"
  by (simp add: docs_dir_def fromDirEntry_def fromFileEntry_def toFileWithPath_def
      withMimeType_def electron_file_def text_file_def or_empty_def)

section \<open>Where the ignore list is applied\<close>

lemma name_toFileWithPath: "name (toFileWithPath f p) = name f"
  by (simp add: toFileWithPath_def withMimeType_def Let_def split: option.splits)

lemma names_of_extracted_files:
  "map extracted_name (map (\<lambda>f. ExtractedFile (toFileWithPath f None)) fs) = map name fs"
  by (simp add: extracted_name_def name_toFileWithPath comp_def)

lemma noIgnoredFiles_names:
  "list_all (\<lambda>f. name f \<notin> Some ` set FILES_TO_IGNORE) (noIgnoredFiles fs)"
  by (auto simp: noIgnoredFiles_def list_all_iff split: option.splits)

lemma drop_names_not_ignored:
  assumes "getDataTransferFiles dt ''drop'' = Some ys"
  shows "list_all (\<lambda>y. extracted_name y \<notin> Some ` set FILES_TO_IGNORE) ys"
proof -
  from assms obtain fs where "ys = map ExtractedFile (noIgnoredFiles fs)"
    by (auto simp: getDataTransferFiles_def Let_def split: js_list.splits option.splits)
  then show ?thesis
    using noIgnoredFiles_names [of fs]
    by (simp add: list_all_iff extracted_name_def)
qed

lemma handles_not_filtered:
  assumes "list_all has_getFile handles"
    and "promise_all (map getFile handles) = Some hs"
  shows "fromEvent (ArrayArg handles) = Some (map (\<lambda>f. ExtractedFile (toFileWithPath f None)) hs)"
  using assms by (simp add: getFsHandleFiles_def)

lemma drag_items_verbatim:
  assumes "items dt = Items its"
    and "t \<noteq> ''drop''"
  shows "getDataTransferFiles dt t =
           Some (map ExtractedItem (filter (\<lambda>item. kind item = ''file'') its))"
  using assms by (simp add: getDataTransferFiles_def)

text \<open>
  C10. The ignore list is applied on the data-transfer paths of a drop only. Extraction
  from an input change event (no data transfer, a target with a file list) resolves with
  every selected file, in order and under its own name, so a selected file named
  \<open>.DS_Store\<close> is in the output. The same holds for the file handles the file picker
  resolves with, the other way a file dialog delivers its files: every handle's file is in
  the output under its own name. The items of a drag that is not a drop are returned as
  they are. A drop never resolves with a file of an ignored name.
\<close>

theorem input_change_not_filtered:
  assumes "dataTransfer evt = None"
    and "target evt = Some (EventTarget n (Items fs))"
  shows "fromEvent (EventArg evt) = Some (map (\<lambda>f. ExtractedFile (toFileWithPath f None)) fs) \<and>
         map extracted_name (map (\<lambda>f. ExtractedFile (toFileWithPath f None)) fs) = map name fs \<and>
         (list_all has_getFile handles \<and> promise_all (map getFile handles) = Some hs \<longrightarrow>
            fromEvent (ArrayArg handles) =
              Some (map (\<lambda>f. ExtractedFile (toFileWithPath f None)) hs) \<and>
            map extracted_name (map (\<lambda>f. ExtractedFile (toFileWithPath f None)) hs) =
              map name hs) \<and>
         (items dt' = Items its \<and> t \<noteq> ''drop'' \<longrightarrow>
            getDataTransferFiles dt' t =
              Some (map ExtractedItem (filter (\<lambda>item. kind item = ''file'') its))) \<and>
         (getDataTransferFiles dt ''drop'' = Some ys \<longrightarrow>
            list_all (\<lambda>y. extracted_name y \<notin> Some ` set FILES_TO_IGNORE) ys)"
proof -
  have "fromEvent (EventArg evt) = Some (map (\<lambda>f. ExtractedFile (toFileWithPath f None)) fs)"
    using assms by (simp add: getInputFiles_def)
  then show ?thesis
    using names_of_extracted_files handles_not_filtered [of handles hs]
      drag_items_verbatim [of dt' its t] drop_names_not_ignored [of dt ys]
    by blast
qed

text \<open>
  The files \<open>.DS_Store\<close> and \<open>a.txt\<close> selected in the file dialog are both extracted,
  from the change event of the input as from the handles of the file picker; the same two
  files dropped as a flat file list leave \<open>a.txt\<close> only, and dragged in as items they are
  returned as items.
\<close>

lemma toFileWithPath_text_file:
  "toFileWithPath (text_file n) None = (text_file n)\<lparr>path := Some n\<rparr>"
  by (simp add: toFileWithPath_def withMimeType_def text_file_def or_empty_def)

theorem input_change_not_filtered_witness:
  "dataTransfer (change_event [text_file ''.DS_Store'', text_file ''a.txt'']) = None \<and>
   target (change_event [text_file ''.DS_Store'', text_file ''a.txt'']) =
     Some (EventTarget 1 (Items [text_file ''.DS_Store'', text_file ''a.txt''])) \<and>
   fromEvent (EventArg (change_event [text_file ''.DS_Store'', text_file ''a.txt''])) =
     Some [ExtractedFile ((text_file ''.DS_Store'')\<lparr>path := Some ''.DS_Store''\<rparr>),
           ExtractedFile ((text_file ''a.txt'')\<lparr>path := Some ''a.txt''\<rparr>)] \<and>
   list_all has_getFile
     [Handle (Some (text_file ''.DS_Store'')), Handle (Some (text_file ''a.txt''))] \<and>
   promise_all (map getFile
     [Handle (Some (text_file ''.DS_Store'')), Handle (Some (text_file ''a.txt''))]) =
     Some [text_file ''.DS_Store'', text_file ''a.txt''] \<and>
   fromEvent (ArrayArg
     [Handle (Some (text_file ''.DS_Store'')), Handle (Some (text_file ''a.txt''))]) =
     Some [ExtractedFile ((text_file ''.DS_Store'')\<lparr>path := Some ''.DS_Store''\<rparr>),
           ExtractedFile ((text_file ''a.txt'')\<lparr>path := Some ''a.txt''\<rparr>)] \<and>
   getDataTransferFiles
     (DataTransfer [''Files''] (Items [DataTransferItem ''file'' ''text/plain'' None None])
        (Items []))
     ''dragenter'' =
     Some [ExtractedItem (DataTransferItem ''file'' ''text/plain'' None None)] \<and>
   getDataTransferFiles
     (DataTransfer [''Files''] Undefined (Items [text_file ''.DS_Store'', text_file ''a.txt'']))
     ''drop'' =
     Some [ExtractedFile ((text_file ''a.txt'')\<lparr>path := Some ''a.txt''\<rparr>)] \<and>
   extracted_name (ExtractedFile ((text_file ''a.txt'')\<lparr>path := Some ''a.txt''\<rparr>))
     \<notin> Some ` set FILES_TO_IGNORE"
proof -
  let ?fs = "[text_file ''.DS_Store'', text_file ''a.txt'']"
  let ?hs = "[Handle (Some (text_file ''.DS_Store'')), Handle (Some (text_file ''a.txt''))]"
  let ?it = "DataTransferItem ''file'' ''text/plain'' None None"
  let ?dt' = "DataTransfer [''Files''] (Items [?it]) (Items [])"
  let ?dt = "DataTransfer [''Files''] Undefined (Items ?fs)"
  let ?ys = "[ExtractedFile ((text_file ''a.txt'')\<lparr>path := Some ''a.txt''\<rparr>)]"
  have h1: "dataTransfer (change_event ?fs) = None"
    and h2: "target (change_event ?fs) = Some (EventTarget 1 (Items ?fs))"
    by (simp_all add: change_event_def)
  have h3: "getDataTransferFiles ?dt ''drop'' = Some ?ys"
    by (simp add: getDataTransferFiles_def toFileWithPath_text_file noIgnoredFiles_def)
       (simp add: text_file_def FILES_TO_IGNORE_def)
  have h4: "list_all has_getFile ?hs \<and> promise_all (map getFile ?hs) = Some ?fs"
    by simp
  have h5: "items ?dt' = Items [?it] \<and> ''dragenter'' \<noteq> ''drop''"
    by simp
  note inst = input_change_not_filtered [OF h1 h2, of ?hs ?fs ?dt' "[?it]" "''dragenter''" ?dt ?ys]
  have r: "fromEvent (EventArg (change_event ?fs)) =
             Some (map (\<lambda>f. ExtractedFile (toFileWithPath f None)) ?fs)"
    using inst by blast
  have a: "fromEvent (ArrayArg ?hs) = Some (map (\<lambda>f. ExtractedFile (toFileWithPath f None)) ?fs)"
    using inst h4 by blast
  have i: "getDataTransferFiles ?dt' ''dragenter'' =
             Some (map ExtractedItem (filter (\<lambda>item. kind item = ''file'') [?it]))"
    using inst h5 by blast
  have n: "list_all (\<lambda>y. extracted_name y \<notin> Some ` set FILES_TO_IGNORE) ?ys"
    using inst h3 by blast
  show ?thesis
    unfolding r a i h3 using h1 h2 h4 n by (simp add: toFileWithPath_text_file)
qed

end
